theory Spec2Isabelle
  imports
    Complex_Main
    "HOL-Library.Log_Nat"
    "HOL-Library.Char_ord"
    "HOL-Library.List_Lexorder"
    "HOL-Library.Product_Lexorder"
begin

section \<open>The relational store read by the report generators\<close>

text \<open>
  The analyzers of \<^verbatim>\<open>pmlutils/python/analyzer\<close> read an SQLite store that an
  external step populates, and write spreadsheet and Markdown reports.

  Throughout, a text value (an SQLite TEXT, a Python \<^verbatim>\<open>str\<close>) is a \<^typ>\<open>string\<close>: one
  \<^typ>\<open>char\<close> per character, for the characters with code points below 256. SQLite
  compares TEXT under the default BINARY collation with \<^verbatim>\<open>memcmp\<close> on the UTF-8
  bytes, which orders text by code point, shorter prefix first: the lexicographic order of
  \<^typ>\<open>string\<close>. Python's \<^verbatim>\<open>len\<close> is \<^const>\<open>length\<close>.
\<close>

text \<open>
  Modelled from the spec: the table declarations (the \<^verbatim>\<open>CREATE TABLE\<close> statements of
  the store) are not part of the repository. The records below hold the columns that the
  queries name, with the types of the data model (section 3 of the specification):
  integer keys, counters and flags are \<^typ>\<open>int\<close>, text columns are \<^typ>\<open>string\<close>. The
  two columns the code treats as optional (\<^verbatim>\<open>widget_type\<close>, \<^verbatim>\<open>framework_type\<close>,
  tested with \<^verbatim>\<open>notna()\<close> in \<^verbatim>\<open>dart_analyzer.py\<close>) are nullable; every other column
  holds a value of its type.
\<close>

record source_file =
  file_id :: int
  file_path :: string

record class_row =
  class_id :: int
  c_file_id :: int
  class_name :: string
  c_type :: string
  widget_type :: "string option"
  framework_type :: "string option"
  import_count :: int

record method_row =
  method_id :: int
  m_class_id :: int
  method_name :: string
  return_type :: string
  param_count :: int
  is_async :: int
  is_static :: int
  has_annotation :: int
  cyclomatic_complexity :: int
  cognitive_complexity :: int

record class_usage =
  referenced_class_id :: int

record method_usage =
  referenced_method_id :: int

record database =
  source_files :: "source_file list"
  classes :: "class_row list"
  class_methods :: "method_row list"
  class_usage_references :: "class_usage list"
  method_usage_references :: "method_usage list"

section \<open>audit\_analyzer.py: the unused-methods query\<close>

text \<open>
  \<^verbatim>\<open>FROM class_methods m JOIN classes c ON m.class_id = c.class_id
  JOIN source_files sf ON c.file_id = sf.file_id\<close>: the inner join, one row per
  matching triple.
\<close>

definition methods_joined :: "database \<Rightarrow> (method_row \<times> class_row \<times> source_file) list" where
  "methods_joined db =
     [(m, c, sf). m \<leftarrow> class_methods db,
                  c \<leftarrow> classes db, m_class_id m = class_id c,
                  sf \<leftarrow> source_files db, c_file_id c = file_id sf]"

text \<open>
  \<^verbatim>\<open>EXISTS (SELECT 1 FROM method_usage_references mur
  WHERE mur.referenced_method_id = m.method_id)\<close>
\<close>

definition method_used :: "database \<Rightarrow> method_row \<Rightarrow> bool" where
  "method_used db m =
     list_ex (\<lambda>mur. referenced_method_id mur = method_id m) (method_usage_references db)"

text \<open>The literal list of \<^verbatim>\<open>m.method_name NOT IN (...)\<close>.\<close>

definition lifecycle_methods :: "string list" where
  "lifecycle_methods = [''build'', ''initState'', ''dispose'', ''createState'']"

text \<open>The \<^verbatim>\<open>WHERE\<close> clause of \<^verbatim>\<open>analyze_unused_methods\<close>.\<close>

definition unused_method_where :: "database \<Rightarrow> method_row \<times> class_row \<times> source_file \<Rightarrow> bool" where
  "unused_method_where db = (\<lambda>(m, c, sf).
     \<not> method_used db m \<and>
     \<not> List.member lifecycle_methods (method_name m) \<and>
     has_annotation m = 0)"

text \<open>
  \<^verbatim>\<open>ORDER BY m.cyclomatic_complexity DESC, sf.file_path, c.class_name, m.method_name\<close>:
  the sort key, with the descending integer column negated.
\<close>

definition unused_method_key ::
  "method_row \<times> class_row \<times> source_file \<Rightarrow> int \<times> string \<times> string \<times> string" where
  "unused_method_key = (\<lambda>(m, c, sf).
     (- cyclomatic_complexity m, file_path sf, class_name c, method_name m))"

text \<open>The joined, filtered and ordered rows, before the \<^verbatim>\<open>SELECT\<close> list projects them.\<close>

definition unused_methods_rows :: "database \<Rightarrow> (method_row \<times> class_row \<times> source_file) list" where
  "unused_methods_rows db =
     sort_key unused_method_key (filter (unused_method_where db) (methods_joined db))"

record unused_method_report =
  um_file_name :: string
  um_class_name :: string
  um_method_name :: string
  um_return_type :: string
  um_param_count :: int
  um_is_async :: string
  um_is_static :: string
  um_cyclomatic_complexity :: int
  um_cognitive_complexity :: int

text \<open>The \<^verbatim>\<open>SELECT\<close> list of \<^verbatim>\<open>analyze_unused_methods\<close>.\<close>

definition unused_method_select ::
  "method_row \<times> class_row \<times> source_file \<Rightarrow> unused_method_report" where
  "unused_method_select = (\<lambda>(m, c, sf).
     \<lparr> um_file_name = file_path sf,
       um_class_name = class_name c,
       um_method_name = method_name m,
       um_return_type = return_type m,
       um_param_count = param_count m,
       um_is_async = (if is_async m = 1 then ''Yes'' else ''No''),
       um_is_static = (if is_static m = 1 then ''Yes'' else ''No''),
       um_cyclomatic_complexity = cyclomatic_complexity m,
       um_cognitive_complexity = cognitive_complexity m \<rparr>)"

definition analyze_unused_methods :: "database \<Rightarrow> unused_method_report list" where
  "analyze_unused_methods db = map unused_method_select (unused_methods_rows db)"

section \<open>audit\_analyzer.py: the unused-classes query\<close>

text \<open>\<^verbatim>\<open>FROM classes c JOIN source_files sf ON c.file_id = sf.file_id\<close>\<close>

definition classes_joined :: "database \<Rightarrow> (class_row \<times> source_file) list" where
  "classes_joined db =
     [(c, sf). c \<leftarrow> classes db, sf \<leftarrow> source_files db, c_file_id c = file_id sf]"

text \<open>
  \<^verbatim>\<open>EXISTS (SELECT 1 FROM class_usage_references cur
  WHERE cur.referenced_class_id = c.class_id)\<close>
\<close>

definition class_used :: "database \<Rightarrow> class_row \<Rightarrow> bool" where
  "class_used db c =
     list_ex (\<lambda>cur. referenced_class_id cur = class_id c) (class_usage_references db)"

text \<open>\<^verbatim>\<open>ORDER BY sf.file_path, c.class_name\<close>\<close>

definition unused_class_key :: "class_row \<times> source_file \<Rightarrow> string \<times> string" where
  "unused_class_key = (\<lambda>(c, sf). (file_path sf, class_name c))"

definition unused_classes_rows :: "database \<Rightarrow> (class_row \<times> source_file) list" where
  "unused_classes_rows db =
     sort_key unused_class_key (filter (\<lambda>(c, sf). \<not> class_used db c) (classes_joined db))"

text \<open>
  SQL aggregates over the rows of a subquery. \<^verbatim>\<open>COUNT(*)\<close> of no rows is 0;
  \<^verbatim>\<open>SUM\<close> and \<^verbatim>\<open>AVG\<close> of no rows are \<^verbatim>\<open>NULL\<close>. \<^verbatim>\<open>AVG\<close> is a floating-point
  quotient: the model keeps its exact numerator and denominator.
\<close>

definition sql_count :: "'a list \<Rightarrow> int" where
  "sql_count rows = int (length rows)"


definition sql_avg :: "int list \<Rightarrow> (int \<times> int) option" where
  "sql_avg xs = (if xs = [] then None else Some (sum_list xs, int (length xs)))"

definition methods_of_class :: "database \<Rightarrow> class_row \<Rightarrow> method_row list" where
  "methods_of_class db c = filter (\<lambda>m. m_class_id m = class_id c) (class_methods db)"

record unused_class_report =
  uc_file_name :: string
  uc_class_name :: string
  uc_class_type :: string
  uc_widget_type :: "string option"
  uc_framework_type :: "string option"
  uc_method_count :: int
  uc_avg_complexity :: "(int \<times> int) option"

text \<open>The \<^verbatim>\<open>SELECT\<close> list of \<^verbatim>\<open>analyze_unused_classes\<close>, with its two subqueries.\<close>

definition unused_class_select :: "database \<Rightarrow> class_row \<times> source_file \<Rightarrow> unused_class_report" where
  "unused_class_select db = (\<lambda>(c, sf).
     \<lparr> uc_file_name = file_path sf,
       uc_class_name = class_name c,
       uc_class_type = c_type c,
       uc_widget_type = widget_type c,
       uc_framework_type = framework_type c,
       uc_method_count = sql_count (methods_of_class db c),
       uc_avg_complexity = sql_avg (map cyclomatic_complexity (methods_of_class db c)) \<rparr>)"

definition analyze_unused_classes :: "database \<Rightarrow> unused_class_report list" where
  "analyze_unused_classes db = map (unused_class_select db) (unused_classes_rows db)"



text \<open>
  The ordering contract in the specification's words: complexity descending, then file
  path, class name and method name ascending.
\<close>

definition methods_report_order :: "unused_method_report \<Rightarrow> unused_method_report \<Rightarrow> bool" where
  "methods_report_order r1 r2 =
     (um_cyclomatic_complexity r1 > um_cyclomatic_complexity r2 \<or>
      um_cyclomatic_complexity r1 = um_cyclomatic_complexity r2 \<and>
      (um_file_name r1 < um_file_name r2 \<or>
       um_file_name r1 = um_file_name r2 \<and>
       (um_class_name r1 < um_class_name r2 \<or>
        um_class_name r1 = um_class_name r2 \<and> um_method_name r1 \<le> um_method_name r2)))"

definition classes_report_order :: "unused_class_report \<Rightarrow> unused_class_report \<Rightarrow> bool" where
  "classes_report_order r1 r2 =
     (uc_file_name r1 < uc_file_name r2 \<or>
      uc_file_name r1 = uc_file_name r2 \<and> uc_class_name r1 \<le> uc_class_name r2)"

section \<open>A small store used to run the queries\<close>

definition ex_file :: "int \<Rightarrow> string \<Rightarrow> source_file" where
  "ex_file i p = \<lparr> file_id = i, file_path = p \<rparr>"

definition ex_class :: "int \<Rightarrow> int \<Rightarrow> string \<Rightarrow> class_row" where
  "ex_class i f n =
     \<lparr> class_id = i, c_file_id = f, class_name = n, c_type = ''class'',
       widget_type = None, framework_type = None, import_count = 2 \<rparr>"

definition ex_method :: "int \<Rightarrow> int \<Rightarrow> string \<Rightarrow> int \<Rightarrow> int \<Rightarrow> method_row" where
  "ex_method i c n ann cc =
     \<lparr> method_id = i, m_class_id = c, method_name = n, return_type = ''void'',
       param_count = 0, is_async = 1, is_static = 0, has_annotation = ann,
       cyclomatic_complexity = cc, cognitive_complexity = cc \<rparr>"

definition ex_db :: database where
  "ex_db =
     \<lparr> source_files = [ex_file 1 ''lib/b.dart'', ex_file 2 ''lib/a.dart''],
       classes = [ex_class 1 1 ''Home'', ex_class 2 2 ''Api''],
       class_methods =
         [ex_method 1 1 ''load'' 0 3, ex_method 2 1 ''save'' 0 9, ex_method 3 2 ''fetch'' 0 9,
          ex_method 4 2 ''close'' 0 1, ex_method 5 1 ''build'' 0 4,
          ex_method 6 1 ''route'' 1 2, ex_method 7 2 ''ping'' 0 7],
       class_usage_references = [\<lparr> referenced_class_id = 2 \<rparr>],
       method_usage_references = [\<lparr> referenced_method_id = 7 \<rparr>] \<rparr>"

section \<open>audit\_analyzer.py: usage statistics\<close>



text \<open>
  \<^verbatim>\<open>df['usage_rate'] = (df['used'] / df['total'] * 100).round(1)\<close> is float64
  arithmetic of pandas and numpy. The model does not evaluate it: it records the
  expression the code evaluates on each row. A \<^verbatim>\<open>NULL\<close> of the \<^verbatim>\<open>used\<close> column
  reaches pandas as NaN.
\<close>

datatype float_expr =
  FInt int
  | FNaN
  | FDiv float_expr float_expr
  | FMul float_expr float_expr
  | FRound nat float_expr






section \<open>config.py: the configuration object\<close>

text \<open>
  What \<^verbatim>\<open>yaml.safe_load\<close> returns: a Python value built from \<^verbatim>\<open>None\<close>, booleans,
  integers, floats (kept as their literal), strings, lists and dictionaries. The
  attributes of \<^verbatim>\<open>AnalyzerConfig\<close> are untyped at run time: an assignment stores
  whatever value the document holds.
\<close>

datatype yaml =
  YNull
  | YBool bool
  | YInt int
  | YFloat string
  | YStr string
  | YSeq "yaml list"
  | YMap "(yaml \<times> yaml) list"

datatype py_error = OSError | YAMLError | KeyError | TypeError | AttributeError | ValueError

text \<open>
  \<^verbatim>\<open>value[key]\<close> with a string key: a dictionary looks the key up and raises
  \<^verbatim>\<open>KeyError\<close> when it is absent; a list or a string raises \<^verbatim>\<open>TypeError\<close> (their
  indices must be integers), as does a value that is not subscriptable.
\<close>

fun py_getitem :: "yaml \<Rightarrow> string \<Rightarrow> py_error + yaml" where
  "py_getitem (YMap kvs) key =
     (case map_of kvs (YStr key) of None \<Rightarrow> Inl KeyError | Some v \<Rightarrow> Inr v)"
| "py_getitem _ key = Inl TypeError"

text \<open>\<^verbatim>\<open>value.get(key, default)\<close>: only a dictionary has the method.\<close>

fun py_get :: "yaml \<Rightarrow> string \<Rightarrow> yaml \<Rightarrow> py_error + yaml" where
  "py_get (YMap kvs) key dflt =
     (case map_of kvs (YStr key) of None \<Rightarrow> Inr dflt | Some v \<Rightarrow> Inr v)"
| "py_get _ key dflt = Inl AttributeError"

text \<open>\<^verbatim>\<open>value[k1][k2]\<close>\<close>

definition py_getitem2 :: "yaml \<Rightarrow> string \<Rightarrow> string \<Rightarrow> py_error + yaml" where
  "py_getitem2 v k1 k2 = (case py_getitem v k1 of Inl e \<Rightarrow> Inl e | Inr w \<Rightarrow> py_getitem w k2)"

record analyzer_config =
  app_name :: yaml
  lib_dir :: yaml
  excluded_dirs :: yaml
  excluded_files :: yaml
  db_dir :: yaml
  db_name :: yaml
  cleanup_on_start :: yaml
  output_doc_dir :: yaml
  output_reports_dir :: yaml
  output_temp_dir :: yaml
  log_level :: yaml
  log_file :: yaml
  log_to_console :: yaml

text \<open>The attribute values \<^verbatim>\<open>__init__\<close> assigns before it loads the document.\<close>

definition default_config :: analyzer_config where
  "default_config =
     \<lparr> app_name = YStr ''minssalor'',
       lib_dir = YStr ''lib'',
       excluded_dirs = YSeq [YStr ''lib/generated''],
       excluded_files = YSeq [YStr ''.freezed.dart'', YStr ''.g.dart'', YStr ''_test.dart''],
       db_dir = YStr ''pmlutils/database'',
       db_name = YStr ''analysis.db'',
       cleanup_on_start = YBool True,
       output_doc_dir = YStr ''pmlutils/output/doc'',
       output_reports_dir = YStr ''pmlutils/output/reports'',
       output_temp_dir = YStr ''pmlutils/output/temp'',
       log_level = YStr ''info'',
       log_file = YStr ''pmlutils/logs/analysis.log'',
       log_to_console = YBool True \<rparr>"

text \<open>
  The body of the \<^verbatim>\<open>try\<close> block runs statement by statement on the object. A
  statement that raises ends the block: the \<^verbatim>\<open>except Exception\<close> handler prints two
  lines and returns, and the attributes keep the values they have at that moment. The
  result is the object and the exception the handler caught, if any.

  \<^const>\<open>Inl\<close> on the right-hand side is the exception the expression raises.
  \<^verbatim>\<open>assign\<close> is an assignment to an attribute, \<^verbatim>\<open>local\<close> an assignment to a
  local variable; both take the rest of the block as a continuation.
\<close>

type_synonym load_result = "analyzer_config \<times> py_error option"

definition assign ::
  "(yaml \<Rightarrow> analyzer_config \<Rightarrow> analyzer_config) \<Rightarrow> py_error + yaml \<Rightarrow>
   (analyzer_config \<Rightarrow> load_result) \<Rightarrow> analyzer_config \<Rightarrow> load_result" where
  "assign setattr rhs rest self =
     (case rhs of Inl e \<Rightarrow> (self, Some e) | Inr v \<Rightarrow> rest (setattr v self))"

definition local ::
  "py_error + yaml \<Rightarrow> (yaml \<Rightarrow> analyzer_config \<Rightarrow> load_result) \<Rightarrow>
   analyzer_config \<Rightarrow> load_result" where
  "local rhs rest self = (case rhs of Inl e \<Rightarrow> (self, Some e) | Inr v \<Rightarrow> rest v self)"

text \<open>
  \<^verbatim>\<open>_load_pml_config\<close>. The argument is the outcome of
  \<^verbatim>\<open>open(pml_path)\<close> and \<^verbatim>\<open>yaml.safe_load(f)\<close>: the parsed document, or the exception
  of a missing or unreadable file (\<^const>\<open>OSError\<close>) or of a text that is not YAML
  (\<^const>\<open>YAMLError\<close>).
\<close>

definition load_pml_config :: "py_error + yaml \<Rightarrow> analyzer_config \<Rightarrow> load_result" where
  "load_pml_config document =
     local document (\<lambda>config.
     assign (\<lambda>v s. s\<lparr>app_name := v\<rparr>) (py_getitem2 config ''app'' ''name'') (
     assign (\<lambda>v s. s\<lparr>lib_dir := v\<rparr>) (py_getitem2 config ''app'' ''lib_dir'') (
     local (py_getitem config ''analyzer'') (\<lambda>analyzer_config.
     assign (\<lambda>v s. s\<lparr>excluded_dirs := v\<rparr>) (py_getitem2 analyzer_config ''excluded'' ''dirs'') (
     assign (\<lambda>v s. s\<lparr>excluded_files := v\<rparr>) (py_getitem2 analyzer_config ''excluded'' ''files'') (
     local (py_getitem analyzer_config ''database'') (\<lambda>db_config.
     assign (\<lambda>v s. s\<lparr>db_dir := v\<rparr>) (py_getitem db_config ''dir'') (
     assign (\<lambda>v s. s\<lparr>db_name := v\<rparr>) (py_getitem db_config ''name'') (
     assign (\<lambda>v s. s\<lparr>cleanup_on_start := v\<rparr>) (py_getitem db_config ''cleanup_on_start'') (
     local (py_getitem config ''output'') (\<lambda>output_config.
     assign (\<lambda>v s. s\<lparr>output_doc_dir := v\<rparr>) (py_getitem output_config ''doc_dir'') (
     assign (\<lambda>v s. s\<lparr>output_reports_dir := v\<rparr>) (py_getitem output_config ''reports_dir'') (
     assign (\<lambda>v s. s\<lparr>output_temp_dir := v\<rparr>) (py_getitem output_config ''temp_dir'') (
     local (py_getitem config ''logging'') (\<lambda>log_config.
     assign (\<lambda>v s. s\<lparr>log_level := v\<rparr>) (py_getitem log_config ''level'') (
     assign (\<lambda>v s. s\<lparr>log_file := v\<rparr>) (py_getitem log_config ''file'') (
     assign (\<lambda>v s. s\<lparr>log_to_console := v\<rparr>) (py_get log_config ''console'' (YBool True)) (
     \<lambda>self. (self, None)))))))))))))))))))"

text \<open>\<^verbatim>\<open>AnalyzerConfig.__init__\<close>: the defaults, then the load.\<close>

definition AnalyzerConfig :: "py_error + yaml \<Rightarrow> load_result" where
  "AnalyzerConfig document = load_pml_config document default_config"

text \<open>
  A document that holds the \<^verbatim>\<open>app\<close> section only:
  \<^verbatim>\<open>app: {name: demo, lib_dir: src}\<close>.
\<close>

definition app_only_document :: yaml where
  "app_only_document =
     YMap [(YStr ''app'', YMap [(YStr ''name'', YStr ''demo''), (YStr ''lib_dir'', YStr ''src'')])]"

section \<open>DataFrames and the spreadsheet helpers\<close>

text \<open>
  A pandas DataFrame as the code uses it: an ordered list of labelled columns, each with
  a dtype and its cells. \<^verbatim>\<open>CMissing\<close> is a missing value (\<^verbatim>\<open>None\<close> or NaN). Column
  labels are distinct in every frame the analyzers build.
\<close>

datatype cell = CMissing | CBool bool | CInt int | CFloat float_expr | CStr string

datatype dtype = DBool | DInt64 | DFloat64 | DObject

record column =
  col_name :: string
  col_dtype :: dtype
  col_cells :: "cell list"

type_synonym dataframe = "column list"

text \<open>
  The dtype \<^verbatim>\<open>pd.read_sql_query\<close> gives a column of values fetched by \<^verbatim>\<open>sqlite3\<close>.
  The driver returns Python \<^verbatim>\<open>int\<close>, \<^verbatim>\<open>float\<close>, \<^verbatim>\<open>str\<close> or \<^verbatim>\<open>None\<close>, never
  \<^verbatim>\<open>bool\<close> (SQLite has no boolean storage class and the connection is opened without
  converters): integers give \<^verbatim>\<open>int64\<close>, numbers with missing values or floats give
  \<^verbatim>\<open>float64\<close>, anything else (text, or no row at all) gives \<^verbatim>\<open>object\<close>.
\<close>

fun is_int_cell :: "cell \<Rightarrow> bool" where
  "is_int_cell (CInt _) = True"
| "is_int_cell _ = False"

fun is_number_cell :: "cell \<Rightarrow> bool" where
  "is_number_cell (CInt _) = True"
| "is_number_cell (CFloat _) = True"
| "is_number_cell CMissing = True"
| "is_number_cell _ = False"

definition sql_column_dtype :: "cell list \<Rightarrow> dtype" where
  "sql_column_dtype cells =
     (if cells = [] then DObject
      else if list_all is_int_cell cells then DInt64
      else if list_all is_number_cell cells \<and> \<not> list_all (\<lambda>c. c = CMissing) cells then DFloat64
      else DObject)"

definition sql_column :: "string \<Rightarrow> cell list \<Rightarrow> column" where
  "sql_column name cells =
     \<lparr> col_name = name, col_dtype = sql_column_dtype cells, col_cells = cells \<rparr>"

subsection \<open>dart\_analyzer.py: analyze\_methods and the export preprocessing\<close>

text \<open>
  The \<^verbatim>\<open>WHERE\<close> and \<^verbatim>\<open>ORDER BY\<close> clauses of \<^verbatim>\<open>analyze_methods\<close>, over the same join
  as the audit query.
\<close>

definition analyze_methods_where :: "method_row \<times> class_row \<times> source_file \<Rightarrow> bool" where
  "analyze_methods_where = (\<lambda>(m, c, sf).
     \<not> List.member lifecycle_methods (method_name m) \<and> has_annotation m = 0)"

definition analyze_methods_key ::
  "method_row \<times> class_row \<times> source_file \<Rightarrow> int \<times> int \<times> string \<times> string \<times> string" where
  "analyze_methods_key = (\<lambda>(m, c, sf).
     (- cyclomatic_complexity m, - cognitive_complexity m,
      file_path sf, class_name c, method_name m))"

definition analyze_methods_rows :: "database \<Rightarrow> (method_row \<times> class_row \<times> source_file) list" where
  "analyze_methods_rows db =
     sort_key analyze_methods_key (filter analyze_methods_where (methods_joined db))"

text \<open>
  The frame of \<^verbatim>\<open>analyze_methods\<close>: the \<^verbatim>\<open>SELECT\<close> list returns \<^verbatim>\<open>m.is_async\<close> and
  \<^verbatim>\<open>m.is_static\<close> as stored, that is as integers.
\<close>

definition analyze_methods :: "database \<Rightarrow> dataframe" where
  "analyze_methods db =
     (let rows = analyze_methods_rows db in
      [sql_column ''file_name'' (map (\<lambda>(m, c, sf). CStr (file_path sf)) rows),
       sql_column ''class_name'' (map (\<lambda>(m, c, sf). CStr (class_name c)) rows),
       sql_column ''method_name'' (map (\<lambda>(m, c, sf). CStr (method_name m)) rows),
       sql_column ''return_type'' (map (\<lambda>(m, c, sf). CStr (return_type m)) rows),
       sql_column ''param_count'' (map (\<lambda>(m, c, sf). CInt (param_count m)) rows),
       sql_column ''cyclomatic_complexity'' (map (\<lambda>(m, c, sf). CInt (cyclomatic_complexity m)) rows),
       sql_column ''cognitive_complexity'' (map (\<lambda>(m, c, sf). CInt (cognitive_complexity m)) rows),
       sql_column ''is_async'' (map (\<lambda>(m, c, sf). CInt (is_async m)) rows),
       sql_column ''is_static'' (map (\<lambda>(m, c, sf). CInt (is_static m)) rows)])"

text \<open>
  \<^verbatim>\<open>df.fillna('')\<close>: every missing cell becomes the empty string; a column that held
  one becomes an \<^verbatim>\<open>object\<close> column.
\<close>

definition fillna :: "column \<Rightarrow> column" where
  "fillna col =
     (if List.member (col_cells col) CMissing
      then col\<lparr> col_dtype := DObject,
                col_cells := map (\<lambda>c. if c = CMissing then CStr [] else c) (col_cells col) \<rparr>
      else col)"

text \<open>
  \<^verbatim>\<open>df[col].map({True: 'Yes', False: 'No'})\<close>: a value that is not a key of the
  dictionary maps to NaN.
\<close>

fun yes_no :: "cell \<Rightarrow> cell" where
  "yes_no (CBool True) = CStr ''Yes''"
| "yes_no (CBool False) = CStr ''No''"
| "yes_no _ = CMissing"

text \<open>
  The preprocessing loop of \<^verbatim>\<open>export_to_excel\<close> on one frame: \<^verbatim>\<open>fillna\<close>, then the
  mapping of the columns that \<^verbatim>\<open>select_dtypes(include=['bool'])\<close> selects.
\<close>

definition export_preprocess :: "dataframe \<Rightarrow> dataframe" where
  "export_preprocess df =
     map (\<lambda>col. if col_dtype col = DBool
                 then col\<lparr> col_dtype := DObject, col_cells := map yes_no (col_cells col) \<rparr>
                 else col)
       (map fillna df)"

text \<open>\<^verbatim>\<open>df[name]\<close>: the column with that label.\<close>

definition frame_column :: "dataframe \<Rightarrow> string \<Rightarrow> column option" where
  "frame_column df name = find (\<lambda>col. col_name col = name) df"

subsection \<open>The column-width loop\<close>

text \<open>
  Numbers of the width computation: an integer, or the float NaN that
  \<^verbatim>\<open>Series.max()\<close> returns on a frame without rows.
\<close>

datatype pynum = Num nat | NaN

text \<open>\<^verbatim>\<open>df[col].astype(str).apply(len).max()\<close>, given the lengths of the cells' strings.\<close>

definition series_max :: "nat list \<Rightarrow> pynum" where
  "series_max lens = (case lens of [] \<Rightarrow> NaN | l # ls \<Rightarrow> Num (fold max ls l))"

text \<open>
  Python's \<^verbatim>\<open>max(a, b)\<close> returns \<^verbatim>\<open>b\<close> when \<^verbatim>\<open>b > a\<close> and \<^verbatim>\<open>a\<close> otherwise;
  \<^verbatim>\<open>min(a, b)\<close> returns \<^verbatim>\<open>b\<close> when \<^verbatim>\<open>b < a\<close> and \<^verbatim>\<open>a\<close> otherwise. Every
  comparison with NaN is false, and \<^verbatim>\<open>NaN + 2\<close> is NaN.
\<close>

fun py_max :: "pynum \<Rightarrow> nat \<Rightarrow> pynum" where
  "py_max NaN b = NaN"
| "py_max (Num a) b = (if b > a then Num b else Num a)"

fun py_add :: "pynum \<Rightarrow> nat \<Rightarrow> pynum" where
  "py_add NaN b = NaN"
| "py_add (Num a) b = Num (a + b)"

fun py_min :: "pynum \<Rightarrow> nat \<Rightarrow> pynum" where
  "py_min NaN b = NaN"
| "py_min (Num a) b = (if b < a then Num b else Num a)"

text \<open>
  The width of one column; \<^verbatim>\<open>str_of\<close> is \<^verbatim>\<open>str\<close> on a cell value
  (\<^verbatim>\<open>astype(str)\<close>), the label is a string already.
\<close>

definition column_width :: "(cell \<Rightarrow> string) \<Rightarrow> column \<Rightarrow> pynum" where
  "column_width str_of col =
     (let max_length =
            py_max (series_max (map (\<lambda>c. length (str_of c)) (col_cells col)))
              (length (col_name col))
      in py_min (py_add max_length 2) 50)"

text \<open>
  \<^verbatim>\<open>chr(n)\<close> is the character with code point \<^verbatim>\<open>n\<close> and raises \<^verbatim>\<open>ValueError\<close> above
  \<^verbatim>\<open>0x10FFFF\<close>. A character is identified with its code point: \<^verbatim>\<open>'A'\<close> is 65,
  \<^verbatim>\<open>'Z'\<close> is 90.
\<close>

definition py_chr :: "nat \<Rightarrow> py_error + nat" where
  "py_chr n = (if n \<le> 1114111 then Inr n else Inl ValueError)"

definition is_column_letter :: "nat \<Rightarrow> bool" where
  "is_column_letter k = (65 \<le> k \<and> k \<le> 90)"

text \<open>
  \<^verbatim>\<open>worksheet.column_dimensions\<close>: the widths set so far, by the character that names
  the column.
\<close>

type_synonym worksheet = "nat \<rightharpoonup> pynum"

text \<open>The key \<^verbatim>\<open>chr(65 + idx)\<close> under which the width of column \<^verbatim>\<open>idx\<close> is stored.\<close>

definition column_key :: "nat \<Rightarrow> py_error + nat" where
  "column_key idx = py_chr (65 + idx)"

text \<open>
  \<^verbatim>\<open>for idx, col in enumerate(df): ... column_dimensions[chr(65 + idx)].width = ...\<close>,
  from index \<^verbatim>\<open>idx\<close> on.
\<close>

fun format_columns ::
  "(cell \<Rightarrow> string) \<Rightarrow> nat \<Rightarrow> column list \<Rightarrow> worksheet \<Rightarrow> py_error + worksheet" where
  "format_columns str_of idx [] ws = Inr ws"
| "format_columns str_of idx (col # cols) ws =
     (let width = column_width str_of col in
      case column_key idx of
        Inl e \<Rightarrow> Inl e
      | Inr letter \<Rightarrow> format_columns str_of (Suc idx) cols (ws(letter \<mapsto> width)))"

text \<open>
  The three copies of the loop: \<^verbatim>\<open>AuditAnalyzer._format_excel_sheet\<close>,
  \<^verbatim>\<open>DartCodeAnalyzer._format_excel_sheet\<close> and the body of
  \<^verbatim>\<open>SchemaDocAnalyzer.export_documentation\<close>.
\<close>

definition AuditAnalyzer_format_excel_sheet ::
  "(cell \<Rightarrow> string) \<Rightarrow> worksheet \<Rightarrow> dataframe \<Rightarrow> py_error + worksheet" where
  "AuditAnalyzer_format_excel_sheet str_of worksheet df = format_columns str_of 0 df worksheet"

definition DartCodeAnalyzer_format_excel_sheet ::
  "(cell \<Rightarrow> string) \<Rightarrow> worksheet \<Rightarrow> dataframe \<Rightarrow> py_error + worksheet" where
  "DartCodeAnalyzer_format_excel_sheet str_of worksheet df = format_columns str_of 0 df worksheet"

definition SchemaDocAnalyzer_format_columns ::
  "(cell \<Rightarrow> string) \<Rightarrow> worksheet \<Rightarrow> dataframe \<Rightarrow> py_error + worksheet" where
  "SchemaDocAnalyzer_format_columns str_of worksheet df = format_columns str_of 0 df worksheet"

text \<open>The claimed width: the longer of the label and the longest cell string.\<close>

definition longest_text :: "(cell \<Rightarrow> string) \<Rightarrow> column \<Rightarrow> nat" where
  "longest_text str_of col =
     fold max (map (\<lambda>c. length (str_of c)) (col_cells col)) (length (col_name col))"

text \<open>
  A one-column frame with one row. \<^verbatim>\<open>ex_str\<close> stands for \<^verbatim>\<open>str\<close> on the cells of
  the example frames, which hold text only (it is \<^verbatim>\<open>str\<close> on text, booleans and NaN).
\<close>

definition ex_frame :: dataframe where
  "ex_frame = [\<lparr> col_name = ''ab'', col_dtype = DObject, col_cells = [CStr ''x''] \<rparr>]"

text \<open>A frame of 27 columns (labelled \<^verbatim>\<open>c\<close>, \<^verbatim>\<open>cc\<close>, ...) without rows.\<close>

definition ex_wide_frame :: dataframe where
  "ex_wide_frame =
     map (\<lambda>n. \<lparr> col_name = replicate (Suc n) CHR ''c'', col_dtype = DObject, col_cells = [] \<rparr>)
       [0..<27]"

fun ex_str :: "cell \<Rightarrow> string" where
  "ex_str (CStr s) = s"
| "ex_str (CBool b) = (if b then ''True'' else ''False'')"
| "ex_str _ = ''nan''"

section \<open>doc\_analyzer.py: documentation extraction\<close>

text \<open>\<^verbatim>\<open>str.startswith\<close> and \<^verbatim>\<open>str.endswith\<close>:\<close>

definition startswith :: "string \<Rightarrow> string \<Rightarrow> bool" where
  "startswith s p = (take (length p) s = p)"

definition endswith :: "string \<Rightarrow> string \<Rightarrow> bool" where
  "endswith s e = (length e \<le> length s \<and> drop (length s - length e) s = e)"

text \<open>
  \<^verbatim>\<open>os.path.join(a, b)\<close> on POSIX: an absolute \<^verbatim>\<open>b\<close> replaces \<^verbatim>\<open>a\<close>; otherwise
  \<^verbatim>\<open>b\<close> is appended, after a separator unless \<^verbatim>\<open>a\<close> is empty or ends with one.
\<close>

definition path_join :: "string \<Rightarrow> string \<Rightarrow> string" where
  "path_join a b =
     (if startswith b ''/'' then b
      else if a = [] \<or> endswith a ''/'' then a @ b
      else a @ ''/'' @ b)"

subsection \<open>The directory walk\<close>

text \<open>
  The part of the file system below the source root, as \<^verbatim>\<open>os.walk\<close> sees it. A
  directory lists its subdirectories and its other entries (the files, each with the
  outcome of reading it as UTF-8 text). \<^verbatim>\<open>Opaque\<close> is a directory entry that
  \<^verbatim>\<open>os.walk\<close> lists but does not enter: a symbolic link to a directory, or a directory
  that cannot be listed (without \<^verbatim>\<open>onerror\<close> the error is ignored). A root that does
  not exist is \<^verbatim>\<open>Opaque\<close> as well.
\<close>

datatype tree =
  Dir "(string \<times> tree) list" "(string \<times> (py_error + string)) list"
  | Opaque

text \<open>
  The test of the list comprehension that prunes \<^verbatim>\<open>dirs\<close>:
  \<^verbatim>\<open>any(os.path.join(root, d).startswith(exc_dir) for exc_dir in config.excluded_dirs)\<close>,
  and the test on a file name. The two configuration values are lists of strings.
\<close>

definition dir_excluded :: "string list \<Rightarrow> string \<Rightarrow> bool" where
  "dir_excluded exc_dirs dir_path = list_ex (startswith dir_path) exc_dirs"

definition file_selected :: "string list \<Rightarrow> string \<Rightarrow> bool" where
  "file_selected exc_files file =
     (endswith file ''.dart'' \<and> \<not> list_ex (endswith file) exc_files)"

text \<open>
  The loop of \<^verbatim>\<open>scan_directory\<close> over \<^verbatim>\<open>os.walk(self.lib_path)\<close>, top-down: the
  selected files of \<^verbatim>\<open>root\<close> first, then the subdirectories that the pruning kept.
  The result lists the calls \<^verbatim>\<open>self.process_file(full_path)\<close> in order, each with the
  outcome of reading that file.
\<close>

fun scan_walk ::
  "string list \<Rightarrow> string list \<Rightarrow> string \<Rightarrow> tree \<Rightarrow> (string \<times> (py_error + string)) list" where
  "scan_walk exc_dirs exc_files root_path Opaque = []"
| "scan_walk exc_dirs exc_files root_path (Dir dirs files) =
     map (\<lambda>fc. (path_join root_path (fst fc), snd fc))
       (filter (\<lambda>fc. file_selected exc_files (fst fc)) files) @
     concat (map (\<lambda>dt. if dir_excluded exc_dirs (path_join root_path (fst dt)) then []
                        else scan_walk exc_dirs exc_files (path_join root_path (fst dt)) (snd dt))
               dirs)"

text \<open>
  Every file below the root, in the order of the walk without pruning: the paths of the
  directories entered below the root on the way to it, the path of its directory, its
  name and the outcome of reading it.
\<close>

fun tree_files ::
  "string \<Rightarrow> tree \<Rightarrow> (string list \<times> string \<times> string \<times> (py_error + string)) list" where
  "tree_files root_path Opaque = []"
| "tree_files root_path (Dir dirs files) =
     map (\<lambda>fc. ([], root_path, fst fc, snd fc)) files @
     concat (map (\<lambda>dt. map (\<lambda>(ds, r). (path_join root_path (fst dt) # ds, r))
                          (tree_files (path_join root_path (fst dt)) (snd dt)))
               dirs)"

subsection \<open>The extraction of a block\<close>

text \<open>
  \<^verbatim>\<open>\s\<close> in a \<^verbatim>\<open>str\<close> pattern and \<^verbatim>\<open>str.strip()\<close> use the same whitespace test;
  below code point 256 the whitespace characters are those of
  \<^verbatim>\<open>"\t\n\v\f\r\x1c\x1d\x1e\x1f \x85\xa0"\<close>.
\<close>

definition isspace :: "char \<Rightarrow> bool" where
  "isspace c = List.member [9, 10, 11, 12, 13, 28, 29, 30, 31, 32, 133, 160 :: nat] (of_char c)"

definition strip :: "string \<Rightarrow> string" where
  "strip s = rev (dropWhile isspace (rev (dropWhile isspace s)))"

text \<open>
  The backtracking matcher of \<^verbatim>\<open>re\<close> for the pattern
  \<^verbatim>\<open>///\s*<claude>(.*?)///\s*</claude>\<close> with \<^verbatim>\<open>re.DOTALL\<close>. Each piece takes the
  rest of the pattern as a continuation and the text still to be read:
  a literal; \<^verbatim>\<open>\s*\<close>, greedy (read one more whitespace character first, give it back
  if the rest fails); \<^verbatim>\<open>(.*?)\<close>, lazy (try the rest first, read one more character,
  whichever it is, if the rest fails), which hands the group it read to the rest.
\<close>

fun strip_prefix :: "string \<Rightarrow> string \<Rightarrow> string option" where
  "strip_prefix [] s = Some s"
| "strip_prefix (p # ps) [] = None"
| "strip_prefix (p # ps) (c # cs) = (if p = c then strip_prefix ps cs else None)"

definition lit :: "string \<Rightarrow> (string \<Rightarrow> 'a option) \<Rightarrow> string \<Rightarrow> 'a option" where
  "lit l rest s = (case strip_prefix l s of None \<Rightarrow> None | Some r \<Rightarrow> rest r)"

fun spaces_greedy :: "(string \<Rightarrow> 'a option) \<Rightarrow> string \<Rightarrow> 'a option" where
  "spaces_greedy rest [] = rest []"
| "spaces_greedy rest (c # cs) =
     (if isspace c
      then (case spaces_greedy rest cs of Some r \<Rightarrow> Some r | None \<Rightarrow> rest (c # cs))
      else rest (c # cs))"

fun any_lazy :: "(string \<Rightarrow> string \<Rightarrow> 'a option) \<Rightarrow> string \<Rightarrow> string \<Rightarrow> 'a option" where
  "any_lazy rest grp [] = rest grp []"
| "any_lazy rest grp (c # cs) =
     (case rest grp (c # cs) of Some r \<Rightarrow> Some r | None \<Rightarrow> any_lazy rest (grp @ [c]) cs)"

text \<open>The pattern matched at the head of the text; the result is group 1.\<close>

definition pattern_at :: "string \<Rightarrow> string option" where
  "pattern_at =
     lit ''///'' (spaces_greedy (lit ''<claude>'' (any_lazy (\<lambda>grp.
       lit ''///'' (spaces_greedy (lit ''</claude>'' (\<lambda>_. Some grp)))) [])))"

text \<open>\<^verbatim>\<open>re.search\<close>: the match at the leftmost position that has one.\<close>

fun re_search :: "string \<Rightarrow> string option" where
  "re_search [] = pattern_at []"
| "re_search (c # cs) = (case pattern_at (c # cs) of Some g \<Rightarrow> Some g | None \<Rightarrow> re_search cs)"

definition extract_claude_doc :: "string \<Rightarrow> string option" where
  "extract_claude_doc content =
     (case re_search content of Some grp \<Rightarrow> Some (strip grp) | None \<Rightarrow> None)"

record doc_record =
  doc_path :: string
  doc_text :: string

text \<open>
  \<^verbatim>\<open>process_file\<close> on \<^verbatim>\<open>self.docs\<close>. The second argument is the outcome of opening
  and reading the file; an exception is logged and the file skipped. \<^verbatim>\<open>if doc:\<close> is
  false for \<^verbatim>\<open>None\<close> and for the empty string. \<^verbatim>\<open>relpath\<close> is
  \<^verbatim>\<open>os.path.relpath\<close>.
\<close>

definition process_file ::
  "(string \<Rightarrow> string \<Rightarrow> string) \<Rightarrow> string \<Rightarrow> string \<Rightarrow> py_error + string \<Rightarrow>
   doc_record list \<Rightarrow> doc_record list" where
  "process_file relpath lib_path full_path read docs =
     (case read of
        Inl e \<Rightarrow> docs
      | Inr content \<Rightarrow>
          (case extract_claude_doc content of
             None \<Rightarrow> docs
           | Some doc \<Rightarrow>
               if doc \<noteq> []
               then docs @ [\<lparr> doc_path = relpath full_path lib_path, doc_text = doc \<rparr>]
               else docs))"

text \<open>\<^verbatim>\<open>scan_directory\<close>: the walk, with \<^verbatim>\<open>process_file\<close> on each selected file.\<close>

definition scan_directory ::
  "(string \<Rightarrow> string \<Rightarrow> string) \<Rightarrow> string list \<Rightarrow> string list \<Rightarrow> string \<Rightarrow> tree \<Rightarrow>
   doc_record list \<Rightarrow> doc_record list" where
  "scan_directory relpath exc_dirs exc_files lib_path fs docs =
     fold (\<lambda>(full_path, read). process_file relpath lib_path full_path read)
       (scan_walk exc_dirs exc_files lib_path fs) docs"

text \<open>
  A delimited block in the specification's words: the text is \<^verbatim>\<open>pre\<close>, an opening
  marker (\<^verbatim>\<open>///\<close>, whitespace, \<^verbatim>\<open><claude>\<close>), the inner text, a closing marker
  (\<^verbatim>\<open>///\<close>, whitespace, \<^verbatim>\<open></claude>\<close>) and \<^verbatim>\<open>post\<close>.
\<close>

definition claude_block ::
  "string \<Rightarrow> string \<Rightarrow> string \<Rightarrow> string \<Rightarrow> string \<Rightarrow> string \<Rightarrow> bool" where
  "claude_block content pre ws1 inner ws2 post =
     (list_all isspace ws1 \<and> list_all isspace ws2 \<and>
      content = pre @ ''///'' @ ws1 @ ''<claude>'' @ inner @ ''///'' @ ws2 @ ''</claude>'' @ post)"

text \<open>
  Two auxiliary readings used to state what the matcher finds: the text that follows a
  marker (\<^verbatim>\<open>///\<close>, whitespace, the tag) at the head of a text, and whether a
  closing marker stands at the head of a text.
\<close>

definition marker_rest :: "string \<Rightarrow> string \<Rightarrow> string option" where
  "marker_rest tag s =
     (case strip_prefix ''///'' s of
        None \<Rightarrow> None
      | Some r \<Rightarrow> strip_prefix tag (dropWhile isspace r))"

definition closer_at :: "string \<Rightarrow> bool" where
  "closer_at s = (marker_rest ''</claude>'' s \<noteq> None)"

text \<open>
  The visiting rule in the specification's words, on an entry of \<^const>\<open>tree_files\<close>: the
  name ends with \<^verbatim>\<open>.dart\<close> and with no excluded suffix, and no directory entered below
  the root on the way to the file has a path that begins with an excluded prefix.
\<close>

definition file_visited ::
  "string list \<Rightarrow> string list \<Rightarrow> string list \<times> string \<times> string \<times> (py_error + string) \<Rightarrow> bool" where
  "file_visited exc_dirs exc_files = (\<lambda>(ds, dp, f, c).
     endswith f ''.dart'' \<and> \<not> list_ex (endswith f) exc_files \<and>
     \<not> list_ex (\<lambda>d. list_ex (startswith d) exc_dirs) ds)"

text \<open>
  A source tree and file contents used to run the extraction; \<^verbatim>\<open>ex_relpath\<close> is
  \<^verbatim>\<open>os.path.relpath\<close> on a path below \<^verbatim>\<open>start\<close>.
\<close>

definition ex_two_blocks :: string where
  "ex_two_blocks =
     ''/// <claude> first  /// </claude> class A {} /// <claude>second/// </claude>''"

definition ex_blank_block :: string where
  "ex_blank_block = ''/// <claude> /// </claude>''"

definition ex_relpath :: "string \<Rightarrow> string \<Rightarrow> string" where
  "ex_relpath p start = drop (Suc (length start)) p"

definition ex_tree :: tree where
  "ex_tree =
     Dir [(''generated'', Dir [] [(''api.dart'', Inr ''/// <claude>gen/// </claude>'')]),
          (''ui'', Dir [] [(''home.dart'', Inr ex_two_blocks), (''home.g.dart'', Inr [])])]
         [(''main.dart'', Inr ''void main() {}''), (''notes.txt'', Inr ''/// <claude>n/// </claude>'')]"

section \<open>Results\<close>


subsection \<open>Helper facts about the queries\<close>








lemma unused_method_key_le:
  "unused_method_key a \<le> unused_method_key b \<longleftrightarrow>
     methods_report_order (unused_method_select a) (unused_method_select b)"
  by (cases a, cases b)
     (auto simp: unused_method_key_def methods_report_order_def unused_method_select_def
        less_eq_prod_def less_prod_def)

lemma unused_class_key_le:
  "unused_class_key a \<le> unused_class_key b \<longleftrightarrow>
     classes_report_order (unused_class_select db a) (unused_class_select db b)"
  by (cases a, cases b)
     (auto simp: unused_class_key_def classes_report_order_def unused_class_select_def
        less_eq_prod_def less_prod_def)

lemma sorted_wrt_sort_key:
  "sorted_wrt (\<lambda>a b. f a \<le> f b) (sort_key f xs)"
  using sorted_sort_key [of f xs] by (simp add: sorted_map)

subsection \<open>Unused methods\<close>



subsection \<open>Unused classes\<close>



subsection \<open>Ordering of the two reports\<close>

text \<open>
  Claim C5. The rows of \<^verbatim>\<open>analyze_unused_methods\<close> are ordered by cyclomatic complexity
  descending, ties broken by file path, class name, method name ascending: every row
  stands in \<^const>\<open>methods_report_order\<close> to every later row. The rows of
  \<^verbatim>\<open>analyze_unused_classes\<close> are ordered by file path, then class name. On the example
  store, whose unused methods are stored with complexities 3, 9, 9, 1, the two
  complexity-9 rows come first, ordered by file path.
\<close>

theorem reports_ordered:
  "sorted_wrt methods_report_order (analyze_unused_methods db) \<and>
   sorted_wrt classes_report_order (analyze_unused_classes db) \<and>
   map um_cyclomatic_complexity (analyze_unused_methods ex_db) = [9, 9, 3, 1] \<and>
   map um_method_name (analyze_unused_methods ex_db) = [''fetch'', ''save'', ''load'', ''close'']"
proof (intro conjI)
  show "sorted_wrt methods_report_order (analyze_unused_methods db)"
    using sorted_wrt_sort_key [of unused_method_key]
    by (simp add: analyze_unused_methods_def unused_methods_rows_def sorted_wrt_map
        unused_method_key_le)
  show "sorted_wrt classes_report_order (analyze_unused_classes db)"
    using sorted_wrt_sort_key [of unused_class_key]
    by (simp add: analyze_unused_classes_def unused_classes_rows_def sorted_wrt_map
        unused_class_key_le [of _ _ db])
  show "map um_cyclomatic_complexity (analyze_unused_methods ex_db) = [9, 9, 3, 1]"
    by code_simp
  show "map um_method_name (analyze_unused_methods ex_db) = [''fetch'', ''save'', ''load'', ''close'']"
    by code_simp
qed

subsection \<open>Usage statistics\<close>






subsection \<open>Configuration load\<close>

lemma AnalyzerConfig_unreadable:
  "AnalyzerConfig (Inl e) = (default_config, Some e)"
  by (simp add: AnalyzerConfig_def load_pml_config_def local_def)

lemma AnalyzerConfig_not_a_mapping:
  "\<forall>kvs. document \<noteq> YMap kvs \<Longrightarrow>
     AnalyzerConfig (Inr document) = (default_config, Some TypeError)"
  by (cases document)
     (simp_all add: AnalyzerConfig_def load_pml_config_def local_def assign_def py_getitem2_def)

text \<open>
  Claim C4 says that after any load failure every field still has its default. The
  constructor never raises (it returns an object for every document), and a file that is
  missing, unreadable or not YAML, or a document that is not a mapping, leaves all
  defaults (the two lemmas above). But the assignments of the \<^verbatim>\<open>try\<close> block are not
  undone: on the document \<^verbatim>\<open>app: {name: demo, lib_dir: src}\<close> the load fails with
  \<^verbatim>\<open>KeyError\<close> at \<^verbatim>\<open>config['analyzer']\<close>, the handler prints that the default
  configuration is used, and \<^verbatim>\<open>app_name\<close> and \<^verbatim>\<open>lib_dir\<close> hold the document's values.
\<close>

theorem AnalyzerConfig_partial_document:
  "AnalyzerConfig (Inr app_only_document) =
     (default_config\<lparr>app_name := YStr ''demo'', lib_dir := YStr ''src''\<rparr>, Some KeyError) \<and>
   app_name (fst (AnalyzerConfig (Inr app_only_document))) \<noteq> app_name default_config \<and>
   lib_dir (fst (AnalyzerConfig (Inr app_only_document))) \<noteq> lib_dir default_config"
  by (simp add: AnalyzerConfig_def load_pml_config_def local_def assign_def py_getitem2_def
      app_only_document_def default_config_def)

subsection \<open>Spreadsheet export\<close>

lemma fold_max_init:
  "fold max xs (max a b) = max (a::nat) (fold max xs b)"
proof (induction xs arbitrary: b)
  case Nil
  then show ?case by simp
next
  case (Cons x xs)
  have "max x (max a b) = max a (max x b)" by (rule max.left_commute)
  with Cons [of "max x b"] show ?case by simp
qed

lemma column_width_rows:
  "col_cells col \<noteq> [] \<Longrightarrow>
     column_width str_of col = Num (min (longest_text str_of col + 2) 50)"
proof -
  assume "col_cells col \<noteq> []"
  then obtain c cs where cs: "col_cells col = c # cs" by (cases "col_cells col") auto
  have "fold max (map (\<lambda>c. length (str_of c)) cs) (max (length (str_of c)) (length (col_name col)))
      = max (length (col_name col)) (fold max (map (\<lambda>c. length (str_of c)) cs) (length (str_of c)))"
    by (simp add: fold_max_init max.commute)
  then show ?thesis
    by (auto simp: column_width_def longest_text_def series_max_def cs Let_def max_def min_def)
qed

lemma column_width_no_rows:
  "col_cells col = [] \<Longrightarrow> column_width str_of col = NaN"
  by (simp add: column_width_def series_max_def)

lemma column_width_le_50:
  "column_width str_of col = Num w \<Longrightarrow> w \<le> 50"
  by (cases "col_cells col")
     (auto simp: column_width_def series_max_def Let_def split: if_splits)

lemma column_key_ok: "idx \<le> 1114046 \<Longrightarrow> column_key idx = Inr (65 + idx)"
  by (simp add: column_key_def py_chr_def)

lemma column_key_error: "1114046 < idx \<Longrightarrow> column_key idx = Inl ValueError"
  by (simp add: column_key_def py_chr_def)

lemma format_columns_ok:
  "idx + length cols \<le> 1114047 \<Longrightarrow>
     format_columns str_of idx cols ws =
       Inr (\<lambda>k. if 65 + idx \<le> k \<and> k < 65 + idx + length cols
                then Some (column_width str_of (cols ! (k - (65 + idx)))) else ws k)"
proof (induction cols arbitrary: idx ws)
  case Nil
  then show ?case by (auto simp: fun_eq_iff)
next
  case (Cons col cols)
  have k: "column_key idx = Inr (65 + idx)"
    using Cons.prems by (simp add: column_key_ok)
  have "Suc idx + length cols \<le> 1114047" using Cons.prems by simp
  from Cons.IH [OF this] show ?case
    by (auto simp: k Let_def fun_eq_iff nth_Cons')
qed

lemma four_eq: "(4::nat) = Suc (Suc (Suc (Suc 0)))"
  by simp

lemma format_columns_dom:
  "idx + length cols \<le> 1114047 \<Longrightarrow> format_columns str_of idx cols ws = Inr ws' \<Longrightarrow>
     dom ws' = dom ws \<union> {65 + i |i. idx \<le> i \<and> i < idx + length cols}"
proof -
  assume b: "idx + length cols \<le> 1114047" and r: "format_columns str_of idx cols ws = Inr ws'"
  have ws': "ws' = (\<lambda>k. if 65 + idx \<le> k \<and> k < 65 + idx + length cols
                then Some (column_width str_of (cols ! (k - (65 + idx)))) else ws k)"
    using r format_columns_ok [OF b, of str_of ws] by simp
  have "{65 + i |i. idx \<le> i \<and> i < idx + length cols} =
        {k. 65 + idx \<le> k \<and> k < 65 + idx + length cols}"
  proof (intro set_eqI iffI)
    fix k assume "k \<in> {k. 65 + idx \<le> k \<and> k < 65 + idx + length cols}"
    then have "k = 65 + (k - 65) \<and> idx \<le> k - 65 \<and> k - 65 < idx + length cols" by auto
    then show "k \<in> {65 + i |i. idx \<le> i \<and> i < idx + length cols}" by blast
  qed auto
  then show ?thesis
    unfolding ws' by (auto simp: dom_def split: if_splits)
qed

lemma format_columns_error:
  "idx \<le> 1114047 \<Longrightarrow> 1114047 < idx + length cols \<Longrightarrow>
     format_columns str_of idx cols ws = Inl ValueError"
proof (induction cols arbitrary: idx ws)
  case Nil
  then show ?case by simp
next
  case (Cons col cols)
  show ?case
  proof (cases "1114046 < idx")
    case True
    then show ?thesis by (simp add: column_key_error Let_def)
  next
    case False
    then have k: "column_key idx = Inr (65 + idx)" by (simp add: column_key_ok)
    have "Suc idx \<le> 1114047" "1114047 < Suc idx + length cols"
      using False Cons.prems by simp_all
    from Cons.IH [OF this] show ?thesis by (simp add: k Let_def)
  qed
qed


lemma fillna_no_missing:
  "CMissing \<notin> set (col_cells (fillna col))"
  by (auto simp: fillna_def)

lemma export_preprocess_bool_column:
  "col_dtype col = DBool \<Longrightarrow> CMissing \<notin> set (col_cells col) \<Longrightarrow>
     export_preprocess [col] = [col\<lparr> col_dtype := DObject, col_cells := map yes_no (col_cells col) \<rparr>]"
  by (simp add: export_preprocess_def fillna_def)

lemma sql_column_not_bool:
  "col_dtype (sql_column name cells) \<noteq> DBool"
  by (simp add: sql_column_def sql_column_dtype_def)

lemma analyze_methods_no_bool_column:
  "col \<in> set (analyze_methods db) \<Longrightarrow> col_dtype col \<noteq> DBool"
  by (auto simp: analyze_methods_def Let_def sql_column_not_bool)

text \<open>
  Claim C8 holds for the preprocessing as such: \<^verbatim>\<open>fillna('')\<close> leaves no missing value
  and a column of dtype \<^verbatim>\<open>bool\<close> is mapped to \<^verbatim>\<open>Yes\<close>/\<^verbatim>\<open>No\<close> (the lemmas above).
  Its last part fails: the frame of \<^verbatim>\<open>analyze_methods\<close> has no \<^verbatim>\<open>bool\<close> column,
  since \<^verbatim>\<open>is_async\<close> and \<^verbatim>\<open>is_static\<close> arrive from SQLite as integers. On the example
  store the two columns reach the writer as \<^verbatim>\<open>int64\<close> columns of 1 and 0, not as
  \<^verbatim>\<open>Yes\<close>/\<^verbatim>\<open>No\<close>. The audit query does the conversion in SQL
  (\<^const>\<open>unused_method_select\<close>); this path misses it.
\<close>

theorem export_to_excel_flags_stay_integers:
  "frame_column (export_preprocess (analyze_methods ex_db)) ''is_async'' =
     Some \<lparr> col_name = ''is_async'', col_dtype = DInt64,
            col_cells = [CInt 1, CInt 1, CInt 1, CInt 1, CInt 1] \<rparr> \<and>
   frame_column (export_preprocess (analyze_methods ex_db)) ''is_static'' =
     Some \<lparr> col_name = ''is_static'', col_dtype = DInt64,
            col_cells = [CInt 0, CInt 0, CInt 0, CInt 0, CInt 0] \<rparr>"
  by code_simp


text \<open>
  Claim C9, as stated, fails: the code adds a padding of 2 to the longer of the label and
  the longest cell before it caps at 50. A column labelled \<^verbatim>\<open>ab\<close> with the one cell
  \<^verbatim>\<open>x\<close> gets width 4, while the longer of the two lengths is 2.
\<close>

theorem format_excel_sheet_padding_counterexample:
  "AuditAnalyzer_format_excel_sheet ex_str Map.empty ex_frame = Inr [65 \<mapsto> Num 4] \<and>
   longest_text ex_str (hd ex_frame) = 2 \<and>
   column_width ex_str (hd ex_frame) \<noteq> Num (longest_text ex_str (hd ex_frame))"
  by (simp add: AuditAnalyzer_format_excel_sheet_def ex_frame_def column_key_def py_chr_def
      column_width_def series_max_def longest_text_def four_eq)


text \<open>
  Claim C9, amended. \<^verbatim>\<open>AuditAnalyzer._format_excel_sheet\<close> stores for every column
  of the frame, under the key \<^verbatim>\<open>chr(65 + idx)\<close>, the width \<^const>\<open>column_width\<close>. On a
  frame with at least one row this is \<^verbatim>\<open>min(L + 2, 50)\<close>, where \<^verbatim>\<open>L\<close> is the longer
  of the label's length and the longest cell string of the column; it never exceeds 50.
  On a frame without rows the computed width is NaN. (The bound on the number of
  columns is the range of \<^verbatim>\<open>chr\<close>.)
\<close>

theorem format_excel_sheet_widths:
  assumes "length df \<le> 1114047"
  shows "\<exists>ws'. AuditAnalyzer_format_excel_sheet str_of ws df = Inr ws' \<and>
     (\<forall>idx < length df.
        ws' (65 + idx) = Some (column_width str_of (df ! idx)) \<and>
        (col_cells (df ! idx) \<noteq> [] \<longrightarrow>
           column_width str_of (df ! idx) = Num (min (longest_text str_of (df ! idx) + 2) 50)) \<and>
        (col_cells (df ! idx) = [] \<longrightarrow> column_width str_of (df ! idx) = NaN) \<and>
        (\<forall>w. column_width str_of (df ! idx) = Num w \<longrightarrow> w \<le> 50))"
  using assms
  by (simp add: AuditAnalyzer_format_excel_sheet_def format_columns_ok column_width_rows
      column_width_no_rows column_width_le_50)


theorem format_excel_sheet_widths_witness:
  "length ex_frame \<le> 1114047 \<and> col_cells (ex_frame ! 0) \<noteq> [] \<and>
   AuditAnalyzer_format_excel_sheet ex_str Map.empty ex_frame = Inr [65 \<mapsto> Num 4] \<and>
   column_width ex_str (ex_frame ! 0) = Num (min (longest_text ex_str (ex_frame ! 0) + 2) 50)"
  using format_excel_sheet_widths [of ex_frame ex_str Map.empty]
  by (simp add: AuditAnalyzer_format_excel_sheet_def ex_frame_def column_key_def py_chr_def
      column_width_def series_max_def longest_text_def four_eq)


text \<open>
  Claim C10. All three formatting loops store the width of column \<^verbatim>\<open>idx\<close> under the
  single character \<^verbatim>\<open>chr(65 + idx)\<close>. With at most 26 columns the loop succeeds and
  every key is one of \<^verbatim>\<open>'A'\<close> to \<^verbatim>\<open>'Z'\<close>; the keys written are exactly those. In a
  frame with more than 26 columns, every column at index 26 or beyond has a key outside
  \<^verbatim>\<open>'A'\<close> to \<^verbatim>\<open>'Z'\<close>, and when the loop completes the width is stored under that key.
\<close>

theorem column_keys_are_letters_upto_26:
  assumes "fmt \<in> {AuditAnalyzer_format_excel_sheet, DartCodeAnalyzer_format_excel_sheet,
                   SchemaDocAnalyzer_format_columns}"
  shows "(length df \<le> 26 \<longrightarrow>
           (\<exists>ws'. fmt str_of ws df = Inr ws' \<and>
                  dom ws' = dom ws \<union> {65 + idx |idx. idx < length df} \<and>
                  (\<forall>idx < length df. \<exists>k. column_key idx = Inr k \<and> is_column_letter k \<and>
                     ws' k = Some (column_width str_of (df ! idx))))) \<and>
         (\<forall>idx. 26 \<le> idx \<and> idx < length df \<longrightarrow>
            (\<forall>k. column_key idx = Inr k \<longrightarrow> \<not> is_column_letter k) \<and>
            (\<forall>ws'. fmt str_of ws df = Inr ws' \<longrightarrow>
               column_key idx = Inr (65 + idx) \<and>
               ws' (65 + idx) = Some (column_width str_of (df ! idx))))"
proof -
  have fmt: "fmt str_of ws df = format_columns str_of 0 df ws"
    using assms
    by (auto simp: AuditAnalyzer_format_excel_sheet_def DartCodeAnalyzer_format_excel_sheet_def
        SchemaDocAnalyzer_format_columns_def)
  have small: "length df \<le> 26 \<longrightarrow>
           (\<exists>ws'. fmt str_of ws df = Inr ws' \<and>
                  dom ws' = dom ws \<union> {65 + idx |idx. idx < length df} \<and>
                  (\<forall>idx < length df. \<exists>k. column_key idx = Inr k \<and> is_column_letter k \<and>
                     ws' k = Some (column_width str_of (df ! idx))))"
  proof
    assume le: "length df \<le> 26"
    then have b: "0 + length df \<le> 1114047" by simp
    let ?ws = "\<lambda>k. if 65 + 0 \<le> k \<and> k < 65 + 0 + length df
                then Some (column_width str_of (df ! (k - (65 + 0)))) else ws k"
    have r: "fmt str_of ws df = Inr ?ws"
      unfolding fmt using format_columns_ok [OF b] by simp
    have d: "dom ?ws = dom ws \<union> {65 + idx |idx. idx < length df}"
      using format_columns_dom [OF b, of str_of ws ?ws] format_columns_ok [OF b, of str_of ws]
      by simp
    have "\<forall>idx < length df. \<exists>k. column_key idx = Inr k \<and> is_column_letter k \<and>
                     ?ws k = Some (column_width str_of (df ! idx))"
      using le by (auto simp: column_key_def py_chr_def is_column_letter_def)
    with r d show "\<exists>ws'. fmt str_of ws df = Inr ws' \<and>
                  dom ws' = dom ws \<union> {65 + idx |idx. idx < length df} \<and>
                  (\<forall>idx < length df. \<exists>k. column_key idx = Inr k \<and> is_column_letter k \<and>
                     ws' k = Some (column_width str_of (df ! idx)))"
      by blast
  qed
  have large: "\<forall>idx. 26 \<le> idx \<and> idx < length df \<longrightarrow>
            (\<forall>k. column_key idx = Inr k \<longrightarrow> \<not> is_column_letter k) \<and>
            (\<forall>ws'. fmt str_of ws df = Inr ws' \<longrightarrow>
               column_key idx = Inr (65 + idx) \<and>
               ws' (65 + idx) = Some (column_width str_of (df ! idx)))"
  proof (intro allI impI conjI)
    fix idx k assume "26 \<le> idx \<and> idx < length df" "column_key idx = Inr k"
    then show "\<not> is_column_letter k"
      by (auto simp: column_key_def py_chr_def is_column_letter_def split: if_splits)
  next
    fix idx ws' assume i: "26 \<le> idx \<and> idx < length df" and r: "fmt str_of ws df = Inr ws'"
    have b: "0 + length df \<le> 1114047"
    proof (rule ccontr)
      assume "\<not> 0 + length df \<le> 1114047"
      then have "1114047 < 0 + length df" by simp
      from format_columns_error [OF _ this, of str_of ws] r show False
        unfolding fmt by simp
    qed
    show "column_key idx = Inr (65 + idx)"
      using i b by (simp add: column_key_ok)
    show "ws' (65 + idx) = Some (column_width str_of (df ! idx))"
      using r i unfolding fmt format_columns_ok [OF b] by auto
  qed
  from small large show ?thesis by blast
qed

theorem column_keys_are_letters_upto_26_witness:
  "length ex_frame \<le> 26 \<and>
   (\<exists>k. column_key 0 = Inr k \<and> is_column_letter k) \<and>
   26 < length ex_wide_frame \<and>
   column_key 26 = Inr 91 \<and> \<not> is_column_letter 91"
proof -
  have a: "AuditAnalyzer_format_excel_sheet \<in>
      {AuditAnalyzer_format_excel_sheet, DartCodeAnalyzer_format_excel_sheet,
       SchemaDocAnalyzer_format_columns}"
    by simp
  have d: "DartCodeAnalyzer_format_excel_sheet \<in>
      {AuditAnalyzer_format_excel_sheet, DartCodeAnalyzer_format_excel_sheet,
       SchemaDocAnalyzer_format_columns}"
    by simp
  have s: "length ex_frame \<le> 26" "0 < length ex_frame"
    by (simp_all add: ex_frame_def)
  have w: "(26::nat) \<le> 26 \<and> 26 < length ex_wide_frame"
    by (simp add: ex_wide_frame_def)
  have k: "column_key 26 = Inr 91"
    by (simp add: column_key_def py_chr_def)
  from column_keys_are_letters_upto_26 [OF a, of ex_frame ex_str Map.empty] s
  have "\<exists>k. column_key 0 = Inr k \<and> is_column_letter k" by blast
  moreover from column_keys_are_letters_upto_26 [OF d, of ex_wide_frame ex_str Map.empty] w k
  have "\<not> is_column_letter 91" by blast
  ultimately show ?thesis using s w k by simp
qed

subsection \<open>Documentation extraction: the matcher\<close>

lemma strip_prefix_Some: "strip_prefix p s = Some r \<longleftrightarrow> s = p @ r"
  by (induction p s rule: strip_prefix.induct) auto

lemma strip_prefix_append: "strip_prefix p (p @ r) = Some r"
  by (simp add: strip_prefix_Some)

lemma spaces_greedy_dropWhile:
  assumes "\<And>c cs. isspace c \<Longrightarrow> rest (c # cs) = None"
  shows "spaces_greedy rest s = rest (dropWhile isspace s)"
proof (induction s)
  case Nil
  then show ?case by simp
next
  case (Cons c cs)
  show ?case
  proof (cases "isspace c")
    case True
    with assms have "rest (c # cs) = None" by simp
    with True Cons show ?thesis by (simp split: option.splits)
  next
    case False
    then show ?thesis by simp
  qed
qed

lemma lit_marker:
  assumes "\<not> isspace t"
  shows "lit ''///'' (spaces_greedy (lit (t # ts) k)) s =
           (case marker_rest (t # ts) s of None \<Rightarrow> None | Some r \<Rightarrow> k r)"
proof -
  have "\<And>c cs. isspace c \<Longrightarrow> lit (t # ts) k (c # cs) = None"
    using assms by (auto simp: lit_def)
  then have "\<And>r. spaces_greedy (lit (t # ts) k) r = lit (t # ts) k (dropWhile isspace r)"
    by (rule spaces_greedy_dropWhile)
  then show ?thesis
    by (simp add: lit_def marker_rest_def split: option.splits)
qed

lemma dropWhile_spaces_tag:
  "list_all isspace ws \<Longrightarrow> \<not> isspace t \<Longrightarrow> dropWhile isspace (ws @ t # r) = t # r"
  by (induction ws) auto

lemma marker_rest_iff:
  assumes "\<not> isspace t"
  shows "marker_rest (t # ts) s = Some r \<longleftrightarrow>
           (\<exists>ws. list_all isspace ws \<and> s = ''///'' @ ws @ (t # ts) @ r)"
proof
  assume "marker_rest (t # ts) s = Some r"
  then obtain q where q: "s = ''///'' @ q" and d: "dropWhile isspace q = (t # ts) @ r"
    by (auto simp: marker_rest_def strip_prefix_Some split: option.splits)
  have "q = takeWhile isspace q @ dropWhile isspace q" by simp
  with d have "q = takeWhile isspace q @ (t # ts) @ r" by simp
  moreover have "list_all isspace (takeWhile isspace q)"
    by (simp add: list_all_iff) (meson set_takeWhileD)
  ultimately show "\<exists>ws. list_all isspace ws \<and> s = ''///'' @ ws @ (t # ts) @ r"
    using q by blast
next
  assume "\<exists>ws. list_all isspace ws \<and> s = ''///'' @ ws @ (t # ts) @ r"
  then obtain ws where ws: "list_all isspace ws" and s: "s = ''///'' @ ws @ (t # ts) @ r"
    by blast
  have "strip_prefix ''///'' s = Some (ws @ (t # ts) @ r)"
    unfolding s by (rule strip_prefix_append)
  moreover have "dropWhile isspace (ws @ (t # ts) @ r) = (t # ts) @ r"
    using dropWhile_spaces_tag [OF ws assms] by simp
  ultimately show "marker_rest (t # ts) s = Some r"
    by (simp add: marker_rest_def strip_prefix_Some)
qed

lemma not_space_lt: "\<not> isspace CHR ''<''"
  by (simp add: isspace_def)

lemma any_lazy_Some:
  "any_lazy (\<lambda>g s. if P s then Some g else None) acc s = Some x \<longleftrightarrow>
     (\<exists>j \<le> length s. P (drop j s) \<and> (\<forall>i<j. \<not> P (drop i s)) \<and> x = acc @ take j s)"
proof (induction s arbitrary: acc)
  case Nil
  then show ?case by auto
next
  case (Cons c cs)
  show ?case
  proof (cases "P (c # cs)")
    case True
    have "(\<exists>j \<le> length (c # cs). P (drop j (c # cs)) \<and> (\<forall>i<j. \<not> P (drop i (c # cs))) \<and>
            x = acc @ take j (c # cs)) \<longleftrightarrow> x = acc"
    proof
      assume "\<exists>j \<le> length (c # cs). P (drop j (c # cs)) \<and> (\<forall>i<j. \<not> P (drop i (c # cs))) \<and>
            x = acc @ take j (c # cs)"
      then obtain j where j: "\<forall>i<j. \<not> P (drop i (c # cs))" "x = acc @ take j (c # cs)" by blast
      have "j = 0"
      proof (rule ccontr)
        assume "j \<noteq> 0"
        then have "0 < j" by simp
        with j(1) have "\<not> P (drop 0 (c # cs))" by blast
        with True show False by simp
      qed
      with j show "x = acc" by simp
    next
      assume "x = acc"
      with True show "\<exists>j \<le> length (c # cs). P (drop j (c # cs)) \<and>
          (\<forall>i<j. \<not> P (drop i (c # cs))) \<and> x = acc @ take j (c # cs)"
        by (intro exI [of _ 0]) simp
    qed
    with True show ?thesis by auto
  next
    case False
    have "(\<exists>j \<le> length (c # cs). P (drop j (c # cs)) \<and> (\<forall>i<j. \<not> P (drop i (c # cs))) \<and>
            x = acc @ take j (c # cs)) \<longleftrightarrow>
          (\<exists>j \<le> length cs. P (drop j cs) \<and> (\<forall>i<j. \<not> P (drop i cs)) \<and>
            x = (acc @ [c]) @ take j cs)" (is "?L \<longleftrightarrow> ?R")
    proof
      assume ?L
      then obtain j where j: "j \<le> length (c # cs)" "P (drop j (c # cs))"
        "\<forall>i<j. \<not> P (drop i (c # cs))" "x = acc @ take j (c # cs)" by blast
      from j(2) False have "j \<noteq> 0" by (cases j) auto
      then obtain j' where j': "j = Suc j'" by (cases j) auto
      have "\<forall>i<j'. \<not> P (drop i cs)"
      proof (intro allI impI)
        fix i assume "i < j'"
        then have "Suc i < j" using j' by simp
        with j(3) have "\<not> P (drop (Suc i) (c # cs))" by blast
        then show "\<not> P (drop i cs)" by simp
      qed
      with j j' show ?R by (intro exI [of _ j']) simp
    next
      assume ?R
      then obtain j where j: "j \<le> length cs" "P (drop j cs)"
        "\<forall>i<j. \<not> P (drop i cs)" "x = (acc @ [c]) @ take j cs" by blast
      have "\<forall>i<Suc j. \<not> P (drop i (c # cs))"
      proof (intro allI impI)
        fix i assume "i < Suc j"
        show "\<not> P (drop i (c # cs))"
        proof (cases i)
          case 0
          with False show ?thesis by simp
        next
          case (Suc i')
          with \<open>i < Suc j\<close> j(3) show ?thesis by simp
        qed
      qed
      with j show ?L by (intro exI [of _ "Suc j"]) simp
    qed
    with False Cons.IH [of "acc @ [c]"] show ?thesis by simp
  qed
qed

lemma pattern_at_eq:
  "pattern_at s =
     (case marker_rest ''<claude>'' s of
        None \<Rightarrow> None
      | Some r \<Rightarrow> any_lazy (\<lambda>g s. if closer_at s then Some g else None) [] r)"
proof -
  have c: "\<And>g. lit ''///'' (spaces_greedy (lit ''</claude>'' (\<lambda>_. Some g))) =
      (\<lambda>s. if closer_at s then Some g else None)"
    by (rule ext) (simp add: lit_marker [OF not_space_lt] closer_at_def split: option.splits)
  show ?thesis
    unfolding pattern_at_def c by (simp add: lit_marker [OF not_space_lt])
qed

lemma pattern_at_Some:
  "pattern_at s = Some g \<longleftrightarrow>
     (\<exists>r. marker_rest ''<claude>'' s = Some r \<and>
          (\<exists>j \<le> length r. closer_at (drop j r) \<and> (\<forall>i<j. \<not> closer_at (drop i r)) \<and>
             g = take j r))"
  by (simp add: pattern_at_eq any_lazy_Some split: option.splits)

lemma re_search_Some:
  "re_search s = Some g \<longleftrightarrow>
     (\<exists>i \<le> length s. pattern_at (drop i s) = Some g \<and> (\<forall>i'<i. pattern_at (drop i' s) = None))"
proof (induction s)
  case Nil
  then show ?case by auto
next
  case (Cons c cs)
  show ?case
  proof (cases "pattern_at (c # cs)")
    case (Some g')
    have "(\<exists>i \<le> length (c # cs). pattern_at (drop i (c # cs)) = Some g \<and>
            (\<forall>i'<i. pattern_at (drop i' (c # cs)) = None)) \<longleftrightarrow> g = g'"
    proof
      assume "\<exists>i \<le> length (c # cs). pattern_at (drop i (c # cs)) = Some g \<and>
            (\<forall>i'<i. pattern_at (drop i' (c # cs)) = None)"
      then obtain i where i: "pattern_at (drop i (c # cs)) = Some g"
        "\<forall>i'<i. pattern_at (drop i' (c # cs)) = None" by blast
      have "i = 0"
      proof (rule ccontr)
        assume "i \<noteq> 0"
        then have "0 < i" by simp
        with i(2) have "pattern_at (drop 0 (c # cs)) = None" by blast
        with Some show False by simp
      qed
      with i Some show "g = g'" by simp
    next
      assume "g = g'"
      with Some show "\<exists>i \<le> length (c # cs). pattern_at (drop i (c # cs)) = Some g \<and>
            (\<forall>i'<i. pattern_at (drop i' (c # cs)) = None)"
        by (intro exI [of _ 0]) simp
    qed
    with Some show ?thesis by auto
  next
    case None
    have "(\<exists>i \<le> length (c # cs). pattern_at (drop i (c # cs)) = Some g \<and>
            (\<forall>i'<i. pattern_at (drop i' (c # cs)) = None)) \<longleftrightarrow>
          (\<exists>i \<le> length cs. pattern_at (drop i cs) = Some g \<and>
            (\<forall>i'<i. pattern_at (drop i' cs) = None))" (is "?L \<longleftrightarrow> ?R")
    proof
      assume ?L
      then obtain i where i: "i \<le> length (c # cs)" "pattern_at (drop i (c # cs)) = Some g"
        "\<forall>i'<i. pattern_at (drop i' (c # cs)) = None" by blast
      from i(2) None have "i \<noteq> 0" by (cases i) auto
      then obtain j where j: "i = Suc j" by (cases i) auto
      have "\<forall>i'<j. pattern_at (drop i' cs) = None"
      proof (intro allI impI)
        fix i' assume "i' < j"
        then have "Suc i' < i" using j by simp
        with i(3) have "pattern_at (drop (Suc i') (c # cs)) = None" by blast
        then show "pattern_at (drop i' cs) = None" by simp
      qed
      with i j show ?R by (intro exI [of _ j]) simp
    next
      assume ?R
      then obtain j where j: "j \<le> length cs" "pattern_at (drop j cs) = Some g"
        "\<forall>i'<j. pattern_at (drop i' cs) = None" by blast
      have "\<forall>i'<Suc j. pattern_at (drop i' (c # cs)) = None"
      proof (intro allI impI)
        fix i' assume "i' < Suc j"
        show "pattern_at (drop i' (c # cs)) = None"
        proof (cases i')
          case 0
          with None show ?thesis by simp
        next
          case (Suc k)
          with \<open>i' < Suc j\<close> j(3) show ?thesis by simp
        qed
      qed
      with j show ?L by (intro exI [of _ "Suc j"]) simp
    qed
    with None Cons.IH show ?thesis by simp
  qed
qed

lemma least_index:
  "P (n::nat) \<Longrightarrow> \<exists>j \<le> n. P j \<and> (\<forall>i<j. \<not> P i)"
proof -
  assume "P n"
  then have "P (LEAST j. P j)" by (rule LeastI)
  moreover have "(LEAST j. P j) \<le> n" using \<open>P n\<close> by (rule Least_le)
  moreover have "\<forall>i<(LEAST j. P j). \<not> P i" using not_less_Least by blast
  ultimately show ?thesis by blast
qed

lemma append_split:
  "content = pre @ rest \<longleftrightarrow>
     length pre \<le> length content \<and> take (length pre) content = pre \<and>
     drop (length pre) content = rest"
  by (metis append_eq_conv_conj append_take_drop_id length_append le_add1)

lemma claude_block_drop:
  "claude_block content pre ws1 inner ws2 post \<longleftrightarrow>
     length pre \<le> length content \<and> take (length pre) content = pre \<and>
     claude_block (drop (length pre) content) [] ws1 inner ws2 post"
  unfolding claude_block_def
  using append_split [of content pre
      "''///'' @ ws1 @ ''<claude>'' @ inner @ ''///'' @ ws2 @ ''</claude>'' @ post"]
  by auto

lemma pattern_at_sound:
  assumes "pattern_at s = Some g"
  shows "\<exists>ws1 ws2 post. claude_block s [] ws1 g ws2 post"
proof -
  from assms obtain r j where r: "marker_rest ''<claude>'' s = Some r"
    and j: "closer_at (drop j r)" "g = take j r"
    unfolding pattern_at_Some by blast
  from r obtain ws1 where ws1: "list_all isspace ws1" "s = ''///'' @ ws1 @ ''<claude>'' @ r"
    using marker_rest_iff [OF not_space_lt] by blast
  from j(1) obtain post where "marker_rest ''</claude>'' (drop j r) = Some post"
    by (auto simp: closer_at_def)
  then obtain ws2 where ws2: "list_all isspace ws2"
      "drop j r = ''///'' @ ws2 @ ''</claude>'' @ post"
    using marker_rest_iff [OF not_space_lt] by blast
  have "r = g @ drop j r" using j(2) by simp
  with ws2(2) have "r = g @ ''///'' @ ws2 @ ''</claude>'' @ post" by simp
  with ws1 ws2(1) have "claude_block s [] ws1 g ws2 post"
    by (simp add: claude_block_def)
  then show ?thesis by blast
qed

lemma pattern_at_complete:
  assumes "claude_block s [] ws1 inner ws2 post"
  shows "\<exists>g. pattern_at s = Some g \<and> length g \<le> length inner"
proof -
  let ?r = "inner @ ''///'' @ ws2 @ ''</claude>'' @ post"
  from assms have ws: "list_all isspace ws1" "list_all isspace ws2"
    and s: "s = ''///'' @ ws1 @ ''<claude>'' @ ?r"
    by (simp_all add: claude_block_def)
  have r: "marker_rest ''<claude>'' s = Some ?r"
    using marker_rest_iff [OF not_space_lt] ws(1) s by blast
  have "marker_rest ''</claude>'' (''///'' @ ws2 @ ''</claude>'' @ post) = Some post"
    using marker_rest_iff [OF not_space_lt] ws(2) by blast
  then have "closer_at (drop (length inner) ?r)"
    by (simp add: closer_at_def)
  from least_index [of "\<lambda>j. closer_at (drop j ?r)", OF this]
  obtain j where j: "j \<le> length inner" "closer_at (drop j ?r)"
    "\<forall>i<j. \<not> closer_at (drop i ?r)" by blast
  have "pattern_at s = Some (take j ?r)"
    unfolding pattern_at_Some using r j by (intro exI [of _ ?r] conjI exI [of _ j]) auto
  moreover have "length (take j ?r) \<le> length inner" using j(1) by simp
  ultimately show ?thesis by blast
qed

lemma re_search_None:
  "re_search s = None \<longleftrightarrow> (\<forall>i \<le> length s. pattern_at (drop i s) = None)"
proof
  assume n: "re_search s = None"
  show "\<forall>i \<le> length s. pattern_at (drop i s) = None"
  proof (rule ccontr)
    assume "\<not> (\<forall>i \<le> length s. pattern_at (drop i s) = None)"
    then obtain i where "i \<le> length s \<and> pattern_at (drop i s) \<noteq> None" by blast
    from least_index [of "\<lambda>i. i \<le> length s \<and> pattern_at (drop i s) \<noteq> None", OF this]
    obtain j where j: "j \<le> length s" "pattern_at (drop j s) \<noteq> None"
      "\<forall>i<j. \<not> (i \<le> length s \<and> pattern_at (drop i s) \<noteq> None)" by blast
    from j(2) obtain g where g: "pattern_at (drop j s) = Some g" by blast
    from j(1,3) have "\<forall>i<j. pattern_at (drop i s) = None" by auto
    with j(1) g have "re_search s = Some g" unfolding re_search_Some by blast
    with n show False by simp
  qed
next
  assume a: "\<forall>i \<le> length s. pattern_at (drop i s) = None"
  show "re_search s = None"
  proof (cases "re_search s")
    case (Some g)
    then obtain i where "i \<le> length s" "pattern_at (drop i s) = Some g"
      unfolding re_search_Some by blast
    with a show ?thesis by auto
  qed simp
qed

lemma strip_parts:
  "\<exists>l r. list_all isspace l \<and> list_all isspace r \<and> s = l @ strip s @ r \<and>
         (strip s \<noteq> [] \<longrightarrow> \<not> isspace (hd (strip s)) \<and> \<not> isspace (last (strip s)))"
proof -
  let ?l = "takeWhile isspace s" and ?m = "dropWhile isspace s"
  let ?r = "rev (takeWhile isspace (rev ?m))"
  have sp: "\<And>xs. list_all isspace (takeWhile isspace xs)"
    by (simp add: list_all_iff) (meson set_takeWhileD)
  have "?m = rev (dropWhile isspace (rev ?m)) @ rev (takeWhile isspace (rev ?m))"
    by (metis rev_append rev_rev_ident takeWhile_dropWhile_id)
  then have m: "?m = strip s @ ?r" by (simp add: strip_def)
  have s: "s = ?l @ strip s @ ?r" using m by (metis takeWhile_dropWhile_id)
  have ends: "strip s \<noteq> [] \<longrightarrow> \<not> isspace (hd (strip s)) \<and> \<not> isspace (last (strip s))"
  proof
    assume ne: "strip s \<noteq> []"
    with m have "?m \<noteq> []" by (metis append_is_Nil_conv)
    then have "\<not> isspace (hd ?m)" by (rule hd_dropWhile)
    moreover from m ne have "hd ?m = hd (strip s)" by (metis hd_append2)
    moreover have "dropWhile isspace (rev ?m) \<noteq> []" using ne by (simp add: strip_def)
    then have "\<not> isspace (hd (dropWhile isspace (rev ?m)))" by (rule hd_dropWhile)
    moreover have "last (strip s) = hd (dropWhile isspace (rev ?m))"
      using ne by (simp add: strip_def last_rev)
    ultimately show "\<not> isspace (hd (strip s)) \<and> \<not> isspace (last (strip s))" by simp
  qed
  have "list_all isspace ?l" by (rule sp)
  moreover have "list_all isspace ?r" using sp [of "rev ?m"] by (simp add: list_all_iff)
  ultimately show ?thesis using s ends by blast
qed

lemma extract_None_iff:
  "extract_claude_doc content = None \<longleftrightarrow>
     \<not> (\<exists>pre ws1 inner ws2 post. claude_block content pre ws1 inner ws2 post)"
proof
  assume "extract_claude_doc content = None"
  then have n: "\<forall>i \<le> length content. pattern_at (drop i content) = None"
    by (simp add: extract_claude_doc_def re_search_None split: option.splits)
  show "\<not> (\<exists>pre ws1 inner ws2 post. claude_block content pre ws1 inner ws2 post)"
  proof
    assume "\<exists>pre ws1 inner ws2 post. claude_block content pre ws1 inner ws2 post"
    then obtain pre ws1 inner ws2 post where "claude_block content pre ws1 inner ws2 post"
      by blast
    then have "length pre \<le> length content"
      "claude_block (drop (length pre) content) [] ws1 inner ws2 post"
      using claude_block_drop by blast+
    with pattern_at_complete n show False by fastforce
  qed
next
  assume nb: "\<not> (\<exists>pre ws1 inner ws2 post. claude_block content pre ws1 inner ws2 post)"
  show "extract_claude_doc content = None"
  proof (cases "re_search content")
    case None
    then show ?thesis by (simp add: extract_claude_doc_def)
  next
    case (Some g)
    then obtain i where i: "i \<le> length content" "pattern_at (drop i content) = Some g"
      unfolding re_search_Some by blast
    from pattern_at_sound [OF i(2)] obtain ws1 ws2 post
      where "claude_block (drop i content) [] ws1 g ws2 post" by blast
    with i(1) have "claude_block content (take i content) ws1 g ws2 post"
      by (subst claude_block_drop) simp
    with nb show ?thesis by blast
  qed
qed

lemma extract_Some_first:
  assumes "extract_claude_doc content = Some d"
  shows "\<exists>pre ws1 inner ws2 post.
           claude_block content pre ws1 inner ws2 post \<and> d = strip inner \<and>
           (\<forall>pre' ws1' inner' ws2' post'.
              claude_block content pre' ws1' inner' ws2' post' \<longrightarrow>
                length pre \<le> length pre' \<and>
                (length pre' = length pre \<longrightarrow> length inner \<le> length inner'))"
proof -
  from assms obtain g where g: "re_search content = Some g" and d: "d = strip g"
    by (auto simp: extract_claude_doc_def split: option.splits)
  from g obtain i where i: "i \<le> length content" "pattern_at (drop i content) = Some g"
    "\<forall>i'<i. pattern_at (drop i' content) = None"
    unfolding re_search_Some by blast
  from pattern_at_sound [OF i(2)] obtain ws1 ws2 post
    where "claude_block (drop i content) [] ws1 g ws2 post" by blast
  with i(1) have b: "claude_block content (take i content) ws1 g ws2 post"
    by (subst claude_block_drop) simp
  have len: "length (take i content) = i" using i(1) by simp
  have first: "\<forall>pre' ws1' inner' ws2' post'.
      claude_block content pre' ws1' inner' ws2' post' \<longrightarrow>
        length (take i content) \<le> length pre' \<and>
        (length pre' = length (take i content) \<longrightarrow> length g \<le> length inner')"
  proof (intro allI impI)
    fix pre' ws1' inner' ws2' post'
    assume "claude_block content pre' ws1' inner' ws2' post'"
    then have "claude_block (drop (length pre') content) [] ws1' inner' ws2' post'"
      using claude_block_drop by blast
    from pattern_at_complete [OF this] obtain g'
      where g': "pattern_at (drop (length pre') content) = Some g'" "length g' \<le> length inner'"
      by blast
    have le: "i \<le> length pre'"
    proof (rule ccontr)
      assume "\<not> i \<le> length pre'"
      then have "length pre' < i" by simp
      with i(3) g'(1) show False by simp
    qed
    have "length pre' = i \<longrightarrow> length g \<le> length inner'"
      using g' i(2) by auto
    with le len show "length (take i content) \<le> length pre' \<and>
        (length pre' = length (take i content) \<longrightarrow> length g \<le> length inner')"
      by simp
  qed
  from b d first show ?thesis by blast
qed


text \<open>
  Claim C6, as stated, fails in its last part: a block whose inner text is empty or
  whitespace only exists and \<^verbatim>\<open>extract_claude_doc\<close> returns its trimmed text, the empty
  string; \<^verbatim>\<open>if doc:\<close> is then false and \<^verbatim>\<open>process_file\<close> appends no record.
\<close>

theorem process_file_blank_block_counterexample:
  "claude_block ex_blank_block [] '' '' '' '' '' '' [] \<and>
   extract_claude_doc ex_blank_block = Some [] \<and>
   process_file ex_relpath ''lib'' ''lib/a.dart'' (Inr ex_blank_block) [] = []"
  by (simp add: claude_block_def ex_blank_block_def isspace_def process_file_def
      extract_claude_doc_def pattern_at_eq marker_rest_def closer_at_def strip_def)

text \<open>
  Claim C6, amended. \<^verbatim>\<open>extract_claude_doc\<close> returns \<^verbatim>\<open>None\<close> exactly when the
  content holds no block. Otherwise it returns the inner text of the first block (no
  block starts further left, and no block with the same start has a shorter inner text),
  trimmed: the inner text is whitespace, the result, whitespace, and a non-empty result
  neither starts nor ends with whitespace. \<^verbatim>\<open>process_file\<close> on that content appends
  exactly one record (relative path, trimmed text) when the trimmed text is not empty,
  and no record when it is empty or when there is no block.
\<close>

theorem extract_claude_doc_first_block:
  "(extract_claude_doc content = None \<longleftrightarrow>
      \<not> (\<exists>pre ws1 inner ws2 post. claude_block content pre ws1 inner ws2 post)) \<and>
   (\<forall>d. extract_claude_doc content = Some d \<longrightarrow>
      (\<exists>pre ws1 inner ws2 post.
         claude_block content pre ws1 inner ws2 post \<and> d = strip inner \<and>
         (\<forall>pre' ws1' inner' ws2' post'.
            claude_block content pre' ws1' inner' ws2' post' \<longrightarrow>
              length pre \<le> length pre' \<and>
              (length pre' = length pre \<longrightarrow> length inner \<le> length inner')) \<and>
         (\<exists>l r. list_all isspace l \<and> list_all isspace r \<and> inner = l @ d @ r \<and>
                (d \<noteq> [] \<longrightarrow> \<not> isspace (hd d) \<and> \<not> isspace (last d)))) \<and>
      process_file relpath lib_path full_path (Inr content) docs =
        (if d = [] then docs
         else docs @ [\<lparr> doc_path = relpath full_path lib_path, doc_text = d \<rparr>])) \<and>
   (extract_claude_doc content = None \<longrightarrow>
      process_file relpath lib_path full_path (Inr content) docs = docs)"
proof (intro conjI allI impI)
  show "extract_claude_doc content = None \<longleftrightarrow>
      \<not> (\<exists>pre ws1 inner ws2 post. claude_block content pre ws1 inner ws2 post)"
    by (rule extract_None_iff)
next
  fix d assume d: "extract_claude_doc content = Some d"
  from extract_Some_first [OF d] obtain pre ws1 inner ws2 post
    where b: "claude_block content pre ws1 inner ws2 post" "d = strip inner"
      "\<forall>pre' ws1' inner' ws2' post'.
            claude_block content pre' ws1' inner' ws2' post' \<longrightarrow>
              length pre \<le> length pre' \<and>
              (length pre' = length pre \<longrightarrow> length inner \<le> length inner')"
    by blast
  from strip_parts [of inner] b(2)
  have "\<exists>l r. list_all isspace l \<and> list_all isspace r \<and> inner = l @ d @ r \<and>
                (d \<noteq> [] \<longrightarrow> \<not> isspace (hd d) \<and> \<not> isspace (last d))"
    by simp
  with b show "\<exists>pre ws1 inner ws2 post.
         claude_block content pre ws1 inner ws2 post \<and> d = strip inner \<and>
         (\<forall>pre' ws1' inner' ws2' post'.
            claude_block content pre' ws1' inner' ws2' post' \<longrightarrow>
              length pre \<le> length pre' \<and>
              (length pre' = length pre \<longrightarrow> length inner \<le> length inner')) \<and>
         (\<exists>l r. list_all isspace l \<and> list_all isspace r \<and> inner = l @ d @ r \<and>
                (d \<noteq> [] \<longrightarrow> \<not> isspace (hd d) \<and> \<not> isspace (last d)))"
    by blast
  show "process_file relpath lib_path full_path (Inr content) docs =
        (if d = [] then docs
         else docs @ [\<lparr> doc_path = relpath full_path lib_path, doc_text = d \<rparr>])"
    using d by (simp add: process_file_def)
next
  assume "extract_claude_doc content = None"
  then show "process_file relpath lib_path full_path (Inr content) docs = docs"
    by (simp add: process_file_def)
qed

theorem extract_claude_doc_first_block_witness:
  "extract_claude_doc ex_two_blocks = Some ''first'' \<and>
   process_file ex_relpath ''lib'' ''lib/ui/home.dart'' (Inr ex_two_blocks) [] =
     [\<lparr> doc_path = ''ui/home.dart'', doc_text = ''first'' \<rparr>] \<and>
   extract_claude_doc ''void main() {}'' = None \<and>
   process_file ex_relpath ''lib'' ''lib/main.dart'' (Inr ''void main() {}'') [] = []"
proof -
  have e1: "extract_claude_doc ex_two_blocks = Some ''first''"
    by code_simp
  have e2: "extract_claude_doc ''void main() {}'' = None"
    by code_simp
  from extract_claude_doc_first_block
      [of ex_two_blocks ex_relpath "''lib''" "''lib/ui/home.dart''" "[]"] e1
  have p1: "process_file ex_relpath ''lib'' ''lib/ui/home.dart'' (Inr ex_two_blocks) [] =
      (if ''first'' = [] then []
       else [] @ [\<lparr> doc_path = ex_relpath ''lib/ui/home.dart'' ''lib'', doc_text = ''first'' \<rparr>])"
    by blast
  from extract_claude_doc_first_block
      [of "''void main() {}''" ex_relpath "''lib''" "''lib/main.dart''" "[]"] e2
  have p2: "process_file ex_relpath ''lib'' ''lib/main.dart'' (Inr ''void main() {}'') [] = []"
    by blast
  from e1 e2 p1 p2 show ?thesis by (simp add: ex_relpath_def)
qed

subsection \<open>Documentation extraction: the directory walk\<close>

lemma scan_walk_eq:
  "scan_walk exc_dirs exc_files root_path t =
     map (\<lambda>(ds, dp, f, c). (path_join dp f, c))
       (filter (file_visited exc_dirs exc_files) (tree_files root_path t))"
proof (induction exc_dirs exc_files root_path t rule: scan_walk.induct)
  case (1 exc_dirs exc_files root_path)
  then show ?case by simp
next
  case (2 exc_dirs exc_files root_path dirs files)
  let ?f = "\<lambda>(ds, dp, f, c). (path_join dp f, c)"
  let ?P = "file_visited exc_dirs exc_files"
  have files: "map (\<lambda>fc. (path_join root_path (fst fc), snd fc))
       (filter (\<lambda>fc. file_selected exc_files (fst fc)) files) =
     map ?f (filter ?P (map (\<lambda>fc. ([], root_path, fst fc, snd fc)) files))"
    by (induction files) (auto simp: file_visited_def file_selected_def dir_excluded_def)
  have sub: "(if dir_excluded exc_dirs (path_join root_path (fst dt)) then []
             else scan_walk exc_dirs exc_files (path_join root_path (fst dt)) (snd dt)) =
     map ?f (filter ?P (map (\<lambda>(ds, r). (path_join root_path (fst dt) # ds, r))
                          (tree_files (path_join root_path (fst dt)) (snd dt))))"
    if dt: "dt \<in> set dirs" for dt
  proof (cases "dir_excluded exc_dirs (path_join root_path (fst dt))")
    case True
    then have "filter ?P (map (\<lambda>(ds, r). (path_join root_path (fst dt) # ds, r))
                          (tree_files (path_join root_path (fst dt)) (snd dt))) = []"
      by (auto simp: filter_empty_conv file_visited_def dir_excluded_def)
    with True show ?thesis by simp
  next
    case False
    have "filter ?P (map (\<lambda>(ds, r). (path_join root_path (fst dt) # ds, r)) xs) =
          map (\<lambda>(ds, r). (path_join root_path (fst dt) # ds, r)) (filter ?P xs)" for xs
      using False by (induction xs) (auto simp: file_visited_def file_selected_def dir_excluded_def)
    moreover have "map ?f (map (\<lambda>(ds, r). (path_join root_path (fst dt) # ds, r)) xs) = map ?f xs" for xs
      by (induction xs) auto
    ultimately show ?thesis using False "2.IH" [OF dt False] by simp
  qed
  have "concat (map (\<lambda>dt. if dir_excluded exc_dirs (path_join root_path (fst dt)) then []
                        else scan_walk exc_dirs exc_files (path_join root_path (fst dt)) (snd dt)) dirs) =
        concat (map (\<lambda>dt. map ?f (filter ?P (map (\<lambda>(ds, r). (path_join root_path (fst dt) # ds, r))
                          (tree_files (path_join root_path (fst dt)) (snd dt))))) dirs)"
    using sub by (intro arg_cong [of _ _ concat] map_cong refl) blast
  also have "\<dots> = map ?f (filter ?P (concat (map (\<lambda>dt. map (\<lambda>(ds, r). (path_join root_path (fst dt) # ds, r))
                          (tree_files (path_join root_path (fst dt)) (snd dt))) dirs)))"
    by (simp add: filter_concat map_concat comp_def)
  finally show ?case using files by simp
qed

text \<open>
  Claim C7, as stated, fails for the source root itself: the pruning tests the
  subdirectories that the walk finds, never the directory the walk starts in. With
  \<^verbatim>\<open>lib_dir = lib\<close> and the excluded prefix \<^verbatim>\<open>lib\<close>, the file \<^verbatim>\<open>lib/a.dart\<close> lies in a
  directory whose path begins with an excluded prefix, and it is processed.
\<close>

theorem scan_directory_root_counterexample:
  "dir_excluded [''lib''] ''lib'' \<and>
   scan_walk [''lib''] [''.g.dart''] ''lib'' (Dir [] [(''a.dart'', Inr [])]) =
     [(''lib/a.dart'', Inr [])]"
  by (simp add: dir_excluded_def startswith_def file_selected_def endswith_def path_join_def)

text \<open>
  Claim C7, amended. \<^verbatim>\<open>scan_directory\<close> calls \<^verbatim>\<open>process_file\<close> on exactly the files
  below the source root whose name ends with \<^verbatim>\<open>.dart\<close> and with none of the excluded
  suffixes, and for which no directory entered below the root on the way to the file has
  a joined path beginning with an excluded prefix, in the order of the walk. So a file
  with an excluded suffix or without the \<^verbatim>\<open>.dart\<close> ending is never processed, and no
  file inside a subdirectory, at any depth below the root, whose path begins with an
  excluded prefix is processed; the root itself is not tested. On the example tree the
  walk skips \<^verbatim>\<open>lib/generated\<close>, \<^verbatim>\<open>home.g.dart\<close> and \<^verbatim>\<open>notes.txt\<close>.
\<close>

theorem scan_directory_visits:
  "scan_walk exc_dirs exc_files lib_path fs =
     map (\<lambda>(ds, dp, f, c). (path_join dp f, c))
       (filter (file_visited exc_dirs exc_files) (tree_files lib_path fs)) \<and>
   scan_directory relpath exc_dirs exc_files lib_path fs docs =
     fold (\<lambda>(full_path, read). process_file relpath lib_path full_path read)
       (map (\<lambda>(ds, dp, f, c). (path_join dp f, c))
          (filter (file_visited exc_dirs exc_files) (tree_files lib_path fs))) docs \<and>
   map fst (scan_walk [''lib/generated''] [''.freezed.dart'', ''.g.dart'', ''_test.dart'']
              ''lib'' ex_tree) = [''lib/main.dart'', ''lib/ui/home.dart'']"
proof (intro conjI)
  show "scan_walk exc_dirs exc_files lib_path fs =
     map (\<lambda>(ds, dp, f, c). (path_join dp f, c))
       (filter (file_visited exc_dirs exc_files) (tree_files lib_path fs))"
    by (rule scan_walk_eq)
  then show "scan_directory relpath exc_dirs exc_files lib_path fs docs =
     fold (\<lambda>(full_path, read). process_file relpath lib_path full_path read)
       (map (\<lambda>(ds, dp, f, c). (path_join dp f, c))
          (filter (file_visited exc_dirs exc_files) (tree_files lib_path fs))) docs"
    by (simp add: scan_directory_def)
  show "map fst (scan_walk [''lib/generated''] [''.freezed.dart'', ''.g.dart'', ''_test.dart'']
              ''lib'' ex_tree) = [''lib/main.dart'', ''lib/ui/home.dart'']"
    by code_simp
qed

end
